theory Spec2Isabelle
  imports Main "HOL-Library.Multiset"
begin

section \<open>Errors\<close>

text \<open>
  Go functions of the daemon return an \<open>error\<close> value next to their result. Every
  \<open>errors.New\<close> / \<open>fmt.Errorf\<close> of the two source files is one constructor below; errors
  handed back by the collaborators (container runtime, metadata store) carry their
  message. A run-time panic (index out of range, slice bounds, nil dereference) ends
  the process and is a value of its own.
\<close>

datatype error =
    ClusterNotFound           \<comment> \<open>"cluster not found"\<close>
  | InvalidTimeout            \<comment> \<open>"must specify a valid timeout for the cluster"\<close>
  | TimeoutTooLong            \<comment> \<open>"cannot allocate clusters for longer than 2 weeks"\<close>
  | NoNodes                   \<comment> \<open>"must specify at least a single node for the cluster"\<close>
  | TooManyNodes              \<comment> \<open>"cannot allocate clusters with more than 10 nodes"\<close>
  | NotOwner                  \<comment> \<open>"cannot kill clusters you don't own"\<close>
  | MajorNotInt               \<comment> \<open>"Could not convert version major to int"\<close>
  | MinorNotInt               \<comment> \<open>"Could not convert version minor to int"\<close>
  | UnknownFlavor int int     \<comment> \<open>"%d.%d is not a recognised flavor"\<close>
  | RuntimeFailure string     \<comment> \<open>an error returned by the container runtime\<close>
  | StoreFailure string       \<comment> \<open>an error returned by the metadata store\<close>
  | Panic                     \<comment> \<open>run-time panic of the Go program\<close>

text \<open>The error classes of the specification (section 7), as predicates on the code's errors.\<close>

definition isInvalidRequest :: "error \<Rightarrow> bool" where
  "isInvalidRequest e = (e = InvalidTimeout \<or> e = TimeoutTooLong \<or> e = NoNodes \<or> e = TooManyNodes)"

definition isInvalidVersion :: "error \<Rightarrow> bool" where
  "isInvalidVersion e = (e = MajorNotInt \<or> e = MinorNotInt)"

definition isUnknownFlavor :: "error \<Rightarrow> bool" where
  "isUnknownFlavor e = (\<exists>major minor. e = UnknownFlavor major minor)"

section \<open>Library functions of Go used by the version resolver\<close>

text \<open>
  \<open>strings.Split(s, sep)\<close> for a one-character separator: the pieces of \<open>s\<close> between
  the occurrences of \<open>sep\<close>; always at least one piece.
\<close>

fun Split :: "string \<Rightarrow> char \<Rightarrow> string list" where
  "Split [] sep = [[]]"
| "Split (c # cs) sep =
     (if c = sep then [] # Split cs sep
      else (case Split cs sep of [] \<Rightarrow> [[c]] | p # ps \<Rightarrow> (c # p) # ps))"

text \<open>Indexing a slice: Go panics outside the range, here \<open>None\<close>.\<close>

definition index :: "'a list \<Rightarrow> nat \<Rightarrow> 'a option" where
  "index xs i = (if i < length xs then Some (xs ! i) else None)"

text \<open>
  \<open>strconv.Atoi\<close>: an optional sign, then one or more decimal digits, and the value
  must fit the 64-bit \<open>int\<close>; anything else is an error (\<open>None\<close>).
\<close>

definition isDigit :: "char \<Rightarrow> bool" where
  "isDigit c = (c \<in> set ''0123456789'')"

definition digitsValue :: "string \<Rightarrow> int" where
  "digitsValue ds = foldl (\<lambda>acc c. acc * 10 + (of_char c - 48)) 0 ds"

definition Atoi :: "string \<Rightarrow> int option" where
  "Atoi s =
     (let neg = (s \<noteq> [] \<and> hd s = CHR ''-'');
          ds = (if s \<noteq> [] \<and> (hd s = CHR ''-'' \<or> hd s = CHR ''+'') then tl s else s)
      in if ds = [] \<or> \<not> list_all isDigit ds then None
         else let n = (if neg then - digitsValue ds else digitsValue ds)
              in if n < - (2 ^ 63) \<or> 2 ^ 63 - 1 < n then None else Some n)"

section \<open>Version resolver (nodes.go)\<close>

record NodeVersion =
  Version :: string
  Flavor :: string
  Build :: string

text \<open>\<open>toTagName\<close>: the two \<open>fmt.Sprintf\<close> calls are string concatenations.\<close>

definition toTagName :: "NodeVersion \<Rightarrow> string" where
  "toTagName nv =
     (if Build nv = [] then Version nv @ ''.centos7''
      else Version nv @ ''-'' @ Build nv @ ''.centos7'')"

text \<open>\<open>toImageName\<close>; the registry is a global of the daemon set from its configuration.\<close>

definition toImageName :: "string \<Rightarrow> NodeVersion \<Rightarrow> string" where
  "toImageName dockerRegistry nv = dockerRegistry @ ''/dynclsr-couchbase_'' @ toTagName nv"

text \<open>The table \<open>versionToFlavor\<close>, a map of maps, as nested association lists.\<close>

definition versionToFlavor :: "(int \<times> (int \<times> string) list) list" where
  "versionToFlavor =
     [(4, [(0, ''sherlock''), (5, ''watson'')]),
      (5, [(0, ''spock''), (5, ''vulcan'')]),
      (6, [(0, ''alice''), (5, ''mad-hatter'')]),
      (7, [(0, ''cheshire-cat'')])]"

text \<open>
  \<open>versionToFlavor[major][minor]\<close> with the \<open>ok\<close> flag: a missing major gives the nil
  map, in which every lookup misses.
\<close>

definition lookupFlavor :: "int \<Rightarrow> int \<Rightarrow> string option" where
  "lookupFlavor major minor =
     (case map_of versionToFlavor major of
        None \<Rightarrow> None
      | Some inner \<Rightarrow> map_of inner minor)"

definition floorMinor :: "int \<Rightarrow> int" where
  "floorMinor minor = (if minor \<ge> 5 then 5 else 0)"

definition flavorFromVersion :: "string \<Rightarrow> error + string" where
  "flavorFromVersion version =
     (let versionSplit = Split version CHR ''.'' in
      case index versionSplit 0 of
        None \<Rightarrow> Inl Panic
      | Some s0 \<Rightarrow>
          (case Atoi s0 of
             None \<Rightarrow> Inl MajorNotInt
           | Some major \<Rightarrow>
               (case index versionSplit 1 of
                  None \<Rightarrow> Inl Panic
                | Some s1 \<Rightarrow>
                    (case Atoi s1 of
                       None \<Rightarrow> Inl MinorNotInt
                     | Some minor0 \<Rightarrow>
                         (let minor = floorMinor minor0 in
                          case lookupFlavor major minor of
                            None \<Rightarrow> Inl (UnknownFlavor major minor)
                          | Some flavor \<Rightarrow> Inr flavor)))))"

definition parseServerVersion :: "string \<Rightarrow> error + NodeVersion" where
  "parseServerVersion version =
     (let versionParts = Split version CHR ''-'' in
      case index versionParts 0 of
        None \<Rightarrow> Inl Panic
      | Some base \<Rightarrow>
          (case flavorFromVersion base of
             Inl err \<Rightarrow> Inl err
           | Inr flavor \<Rightarrow>
               Inr \<lparr>Version = base, Flavor = flavor,
                    Build = (if length versionParts > 1 then versionParts ! 1 else [])\<rparr>))"

section \<open>Data model (clusters.go, nodes.go)\<close>

text \<open>
  \<open>time.Time\<close> and \<open>time.Duration\<close> are counted in nanoseconds; the instant 0 stands
  for the zero value of \<open>time.Time\<close>.
\<close>

type_synonym Time = int
type_synonym Duration = int

definition Hour :: Duration where
  "Hour = 3600 * 1000000000"

record NodeOptions =
  opt_Name :: string
  Platform :: string
  ServerVersion :: string
  VersionInfo :: "NodeVersion option"   \<comment> \<open>a pointer in the source: \<open>None\<close> is nil\<close>

record ClusterOptions =
  opts_Timeout :: Duration
  opts_Nodes :: "NodeOptions list"

record Node =
  ContainerID :: string
  State :: string
  Name :: string
  InitialServerVersion :: string
  IPv4Address :: string
  IPv6Address :: string

record Cluster =
  ID :: string
  Creator :: string
  Owner :: string
  Timeout :: Time
  Nodes :: "Node list"

text \<open>
  Modelled from the spec: the context accessors \<open>ContextUser\<close> and
  \<open>ContextIgnoreOwnership\<close> are not part of the two source files. Section 6: the
  caller identity context supplies \<open>identity\<close> and \<open>ignoreOwnership: bool\<close> for
  every operation.
\<close>

record Ctx =
  ContextUser :: string
  ContextIgnoreOwnership :: bool

text \<open>
  Modelled from the spec: the record type of the metadata store is not part of the
  two source files. Section 3: ClusterMeta is \<open>{owner: identity, timeout: absolute
  timestamp}\<close>.
\<close>

record ClusterMeta =
  meta_Owner :: string
  meta_Timeout :: Time

text \<open>
  The fields of the container runtime's \<open>types.Container\<close> and
  \<open>network.EndpointSettings\<close> that the daemon reads. Labels and networks are Go maps,
  here association lists read with \<open>map_of\<close>.
\<close>

record EndpointSettings =
  IPAddress :: string
  GlobalIPv6Address :: string

record Container =
  c_ID :: string
  c_State :: string
  c_Labels :: "(string \<times> string) list"
  c_Networks :: "(string \<times> EndpointSettings) list"

text \<open>Reading a Go map of strings: a missing key gives the empty string.\<close>

definition label :: "Container \<Rightarrow> string \<Rightarrow> string" where
  "label c k = (case map_of (c_Labels c) k of None \<Rightarrow> [] | Some v \<Rightarrow> v)"

definition NetworkName :: string where
  "NetworkName = ''macvlan0''"

section \<open>The collaborators: container runtime, metadata store, DNS registrar\<close>

text \<open>
  Every call into a collaborator is recorded, in order, in the world's list of calls.
\<close>

datatype Call =
    CallContainerList
  | CallContainerCreate string string "(string \<times> string) list" "string list"
      \<comment> \<open>container name, image, labels, DNS servers\<close>
  | CallContainerStart string
  | CallContainerInspect string
  | CallContainerStop string
  | CallGetClusterMeta string
  | CallCreateClusterMeta string ClusterMeta
  | CallUpdateClusterMeta string
  | CallRegisterDomainName string string

record World =
  containers :: "Container list"            \<comment> \<open>what the runtime lists, stopped ones included\<close>
  metas :: "string \<rightharpoonup> ClusterMeta"         \<comment> \<open>the records of the metadata store\<close>
  calls :: "Call list"

text \<open>
  What the daemon does not decide: its configuration (\<open>dockerRegistry\<close>,
  \<open>dnsSvcHost\<close>) and the behaviour of the collaborators, that is which calls they
  refuse (with which message), the identifier the runtime gives a new container and
  the endpoints it attaches on start.
\<close>

record Env =
  dockerRegistry :: string
  dnsSvcHost :: string
  listFault :: "string option"
  createFault :: "string \<Rightarrow> string option"     \<comment> \<open>by container name\<close>
  assignID :: "string \<Rightarrow> string"                \<comment> \<open>by container name\<close>
  startFault :: "string \<Rightarrow> string option"      \<comment> \<open>by container identifier\<close>
  attach :: "string \<Rightarrow> (string \<times> EndpointSettings) list"
  inspectFault :: "string \<Rightarrow> string option"
  stopFault :: "string \<Rightarrow> string option"
  storeCreateFault :: "string \<Rightarrow> string option" \<comment> \<open>by cluster identifier\<close>
  storeUpdateFault :: "string \<Rightarrow> string option"

definition record_call :: "Call \<Rightarrow> World \<Rightarrow> World" where
  "record_call c w = w\<lparr>calls := calls w @ [c]\<rparr>"

text \<open>
  Modelled from the spec: the container runtime is an external collaborator. Section 6:
  \<open>create(image, labels, mounts, network, dnsServers, name) -> id\<close>; \<open>start(id)\<close>;
  \<open>inspect(id) -> {networks: {name: {ipv4, ipv6}}}\<close>; \<open>stop(id)\<close> (auto-removes);
  \<open>list(all=true) -> [{id, state, labels, networks}]\<close>.
\<close>

definition docker_ContainerList :: "Env \<Rightarrow> World \<Rightarrow> (error + Container list) \<times> World" where
  "docker_ContainerList env w =
     (let w1 = record_call CallContainerList w in
      case listFault env of
        Some msg \<Rightarrow> (Inl (RuntimeFailure msg), w1)
      | None \<Rightarrow> (Inr (containers w1), w1))"

definition docker_ContainerCreate ::
  "Env \<Rightarrow> string \<Rightarrow> string \<Rightarrow> (string \<times> string) list \<Rightarrow> string list \<Rightarrow> World
     \<Rightarrow> (error + string) \<times> World" where
  "docker_ContainerCreate env name imageName labels dns w =
     (let w1 = record_call (CallContainerCreate name imageName labels dns) w in
      case createFault env name of
        Some msg \<Rightarrow> (Inl (RuntimeFailure msg), w1)
      | None \<Rightarrow>
          (Inr (assignID env name),
           w1\<lparr>containers := containers w1 @
                 [\<lparr>c_ID = assignID env name, c_State = ''created'',
                   c_Labels = labels, c_Networks = []\<rparr>]\<rparr>))"

definition docker_ContainerStart :: "Env \<Rightarrow> string \<Rightarrow> World \<Rightarrow> error option \<times> World" where
  "docker_ContainerStart env cid w =
     (let w1 = record_call (CallContainerStart cid) w in
      case startFault env cid of
        Some msg \<Rightarrow> (Some (RuntimeFailure msg), w1)
      | None \<Rightarrow>
          (if cid \<notin> set (map c_ID (containers w1))
           then (Some (RuntimeFailure ''No such container''), w1)
           else (None,
                 w1\<lparr>containers :=
                       map (\<lambda>c. if c_ID c = cid
                                then c\<lparr>c_State := ''running'', c_Networks := attach env cid\<rparr>
                                else c) (containers w1)\<rparr>)))"

definition docker_ContainerInspect ::
  "Env \<Rightarrow> string \<Rightarrow> World \<Rightarrow> (error + (string \<times> EndpointSettings) list) \<times> World" where
  "docker_ContainerInspect env cid w =
     (let w1 = record_call (CallContainerInspect cid) w in
      case inspectFault env cid of
        Some msg \<Rightarrow> (Inl (RuntimeFailure msg), w1)
      | None \<Rightarrow>
          (case find (\<lambda>c. c_ID c = cid) (containers w1) of
             None \<Rightarrow> (Inl (RuntimeFailure ''No such container''), w1)
           | Some c \<Rightarrow> (Inr (c_Networks c), w1)))"

text \<open>The runtime accepts a prefix of the identifier; a stopped container is removed.\<close>

definition docker_ContainerStop :: "Env \<Rightarrow> string \<Rightarrow> World \<Rightarrow> error option \<times> World" where
  "docker_ContainerStop env cid w =
     (let w1 = record_call (CallContainerStop cid) w in
      case stopFault env cid of
        Some msg \<Rightarrow> (Some (RuntimeFailure msg), w1)
      | None \<Rightarrow>
          (if \<not> list_ex (\<lambda>c. take (length cid) (c_ID c) = cid) (containers w1)
           then (Some (RuntimeFailure ''No such container''), w1)
           else (None,
                 w1\<lparr>containers :=
                       filter (\<lambda>c. take (length cid) (c_ID c) \<noteq> cid) (containers w1)\<rparr>)))"

text \<open>
  Modelled from the spec: the metadata store (\<open>metaStore\<close>) is not part of the two
  source files. Section 6: \<open>create(clusterID, meta)\<close>; \<open>get(clusterID) -> meta |
  NotFound\<close>; \<open>update(clusterID, fn(meta) -> meta)\<close> atomic. In the Go signatures
  \<open>get\<close> returns a record next to the error, the zero record when the error is set.
\<close>

definition metaStore_GetClusterMeta ::
  "string \<Rightarrow> World \<Rightarrow> (ClusterMeta \<times> error option) \<times> World" where
  "metaStore_GetClusterMeta clusterID w =
     (let w1 = record_call (CallGetClusterMeta clusterID) w in
      case metas w1 clusterID of
        None \<Rightarrow> ((\<lparr>meta_Owner = [], meta_Timeout = 0\<rparr>, Some (StoreFailure ''not found'')), w1)
      | Some meta \<Rightarrow> ((meta, None), w1))"

definition metaStore_CreateClusterMeta ::
  "Env \<Rightarrow> string \<Rightarrow> ClusterMeta \<Rightarrow> World \<Rightarrow> error option \<times> World" where
  "metaStore_CreateClusterMeta env clusterID meta w =
     (let w1 = record_call (CallCreateClusterMeta clusterID meta) w in
      case storeCreateFault env clusterID of
        Some msg \<Rightarrow> (Some (StoreFailure msg), w1)
      | None \<Rightarrow> (None, w1\<lparr>metas := (metas w1)(clusterID \<mapsto> meta)\<rparr>))"


text \<open>
  \<open>registerDomainName\<close> goes through the retrying REST helper of another package; the
  daemon only logs its outcome, so the call is recorded and nothing else.
\<close>

definition registerDomainName :: "string \<Rightarrow> string \<Rightarrow> World \<Rightarrow> World" where
  "registerDomainName hostname ip w = record_call (CallRegisterDomainName hostname ip) w"

section \<open>Cluster reconciler (clusters.go)\<close>

text \<open>\<open>clusterMap[clusterID] = append(clusterMap[clusterID], container)\<close>\<close>

fun appendToGroup ::
  "string \<Rightarrow> Container \<Rightarrow> (string \<times> Container list) list \<Rightarrow> (string \<times> Container list) list" where
  "appendToGroup clusterID container [] = [(clusterID, [container])]"
| "appendToGroup clusterID container ((k, grp) # m) =
     (if k = clusterID then (k, grp @ [container]) # m
      else (k, grp) # appendToGroup clusterID container m)"

text \<open>
  The first loop of \<open>getAllClusters\<close>, \<open>groupStep\<close> being its body. The Go map is kept
  as an association list with one entry per key, in the order in which the keys first
  occur; Go leaves the order of the later \<open>range\<close> over the map open.
\<close>

definition groupStep ::
  "(string \<times> Container list) list \<Rightarrow> Container \<Rightarrow> (string \<times> Container list) list" where
  "groupStep clusterMap container =
     (let clusterID = label container ''com.couchbase.dyncluster.cluster_id''
      in if clusterID \<noteq> [] then appendToGroup clusterID container clusterMap
         else clusterMap)"

definition groupByCluster :: "Container list \<Rightarrow> (string \<times> Container list) list" where
  "groupByCluster cs = foldl groupStep [] cs"

definition toNode :: "Container \<Rightarrow> Node" where
  "toNode container =
     (let eth0Net = (case map_of (c_Networks container) ''macvlan0'' of
                       None \<Rightarrow> \<lparr>IPAddress = [], GlobalIPv6Address = []\<rparr>
                     | Some n \<Rightarrow> n)
      in \<lparr>ContainerID = take 12 (c_ID container),
          State = c_State container,
          Name = label container ''com.couchbase.dyncluster.node_name'',
          InitialServerVersion = label container ''com.couchbase.dyncluster.initial_server_version'',
          IPv4Address = IPAddress eth0Net,
          IPv6Address = GlobalIPv6Address eth0Net\<rparr>)"

text \<open>
  The inner loop over the containers of one cluster; \<open>container.ID[0:12]\<close> panics on an
  identifier shorter than 12 characters.
\<close>

fun buildNodes :: "Container list \<Rightarrow> string \<Rightarrow> Node list \<Rightarrow> error + (string \<times> Node list)" where
  "buildNodes [] clusterCreator nodes = Inr (clusterCreator, nodes)"
| "buildNodes (container # rest) clusterCreator nodes =
     (let containerCreator = label container ''com.couchbase.dyncluster.creator'';
          clusterCreator' = (if clusterCreator = [] then containerCreator else clusterCreator)
      in if length (c_ID container) < 12 then Inl Panic
         else buildNodes rest clusterCreator' (nodes @ [toNode container]))"

text \<open>The loop over the groups.\<close>

fun clusterLoop ::
  "Ctx \<Rightarrow> (string \<times> Container list) list \<Rightarrow> Cluster list \<Rightarrow> World
     \<Rightarrow> (error + Cluster list) \<times> World" where
  "clusterLoop ctx [] clusters w = (Inr clusters, w)"
| "clusterLoop ctx ((clusterID, grp) # rest) clusters w =
     (case metaStore_GetClusterMeta clusterID w of
        ((meta, err), w1) \<Rightarrow>
          (case buildNodes grp [] [] of
             Inl e \<Rightarrow> (Inl e, w1)
           | Inr (creator0, nodes) \<Rightarrow>
               (let clusterCreator = (if creator0 = [] then ''unknown'' else creator0) in
                if \<not> ContextIgnoreOwnership ctx \<and> clusterCreator \<noteq> ContextUser ctx
                then clusterLoop ctx rest clusters w1
                else clusterLoop ctx rest
                       (clusters @ [\<lparr>ID = clusterID, Creator = clusterCreator,
                                      Owner = meta_Owner meta, Timeout = meta_Timeout meta,
                                      Nodes = nodes\<rparr>]) w1)))"

definition getAllClusters :: "Env \<Rightarrow> Ctx \<Rightarrow> World \<Rightarrow> (error + Cluster list) \<times> World" where
  "getAllClusters env ctx w =
     (case docker_ContainerList env w of
        (Inl err, w1) \<Rightarrow> (Inl err, w1)
      | (Inr cs, w1) \<Rightarrow> clusterLoop ctx (groupByCluster cs) [] w1)"

definition getCluster :: "Env \<Rightarrow> Ctx \<Rightarrow> string \<Rightarrow> World \<Rightarrow> (error + Cluster) \<times> World" where
  "getCluster env ctx clusterID w =
     (case getAllClusters env ctx w of
        (Inl err, w1) \<Rightarrow> (Inl err, w1)
      | (Inr clusters, w1) \<Rightarrow>
          (case find (\<lambda>cluster. ID cluster = clusterID) clusters of
             Some cluster \<Rightarrow> (Inr cluster, w1)
           | None \<Rightarrow> (Inl ClusterNotFound, w1)))"

section \<open>Node allocator and terminator (nodes.go)\<close>

definition allocateNode ::
  "Env \<Rightarrow> Ctx \<Rightarrow> string \<Rightarrow> Time \<Rightarrow> NodeOptions \<Rightarrow> World \<Rightarrow> (error + string) \<times> World" where
  "allocateNode env ctx clusterID timeout opts w =
     (let containerName = ''dynclsr-'' @ clusterID @ ''-'' @ opt_Name opts in
      case VersionInfo opts of
        None \<Rightarrow> (Inl Panic, w)
      | Some nv \<Rightarrow>
          (let containerImage = toImageName (dockerRegistry env) nv;
               dns = (if dnsSvcHost env \<noteq> [] then [dnsSvcHost env] else []);
               labels = [(''com.couchbase.dyncluster.creator'', ContextUser ctx),
                         (''com.couchbase.dyncluster.cluster_id'', clusterID),
                         (''com.couchbase.dyncluster.node_name'', opt_Name opts),
                         (''com.couchbase.dyncluster.initial_server_version'', ServerVersion opts)]
           in case docker_ContainerCreate env containerName containerImage labels dns w of
                (Inl err, w1) \<Rightarrow> (Inl err, w1)
              | (Inr createdID, w1) \<Rightarrow>
                  (case docker_ContainerStart env createdID w1 of
                     (Some err, w2) \<Rightarrow> (Inl err, w2)
                   | (None, w2) \<Rightarrow>
                       (case docker_ContainerInspect env createdID w2 of
                          (Inl err, w3) \<Rightarrow> (Inl err, w3)
                        | (Inr networks, w3) \<Rightarrow>
                            (case map_of networks NetworkName of
                               None \<Rightarrow> (Inl Panic, w3)
                             | Some net \<Rightarrow>
                                 (let ipv4 = IPAddress net;
                                      ipv6 = GlobalIPv6Address net;
                                      containerHostName = containerName @ ''.couchbase.com'';
                                      w4 = (if dnsSvcHost env \<noteq> [] \<and> ipv4 \<noteq> []
                                            then registerDomainName containerHostName ipv4 w3
                                            else w3);
                                      w5 = (if dnsSvcHost env \<noteq> [] \<and> ipv6 \<noteq> []
                                            then registerDomainName containerHostName ipv6 w4
                                            else w4)
                                  in (Inr createdID, w5)))))))"

definition killNode :: "Env \<Rightarrow> Ctx \<Rightarrow> string \<Rightarrow> World \<Rightarrow> error option \<times> World" where
  "killNode env ctx containerID w = docker_ContainerStop env containerID w"

section \<open>Cluster orchestrator (clusters.go)\<close>

text \<open>
  The fan-out. Each goroutine sends one value on the channel \<open>signal\<close>, and the parent
  receives as many values as it started goroutines. The order in which the goroutines
  get to run is not fixed by the program: it is a parameter, a list of picks, and
  \<open>arrival\<close> takes the workers in the order picked (every list of picks gives a
  permutation of the workers). A worker runs to its end before the next one starts.
\<close>

fun arrival :: "nat list \<Rightarrow> 'a list \<Rightarrow> 'a list" where
  "arrival [] xs = xs"
| "arrival (p # ps) xs =
     (if xs = [] then []
      else (let i = p mod length xs
            in xs ! i # arrival ps (take i xs @ drop (Suc i) xs)))"

text \<open>The receiving loop: the first error received is kept.\<close>

fun drain :: "error option list \<Rightarrow> error option \<Rightarrow> error option" where
  "drain [] firstError = firstError"
| "drain (err # signal) firstError =
     drain signal (if err \<noteq> None \<and> firstError = None then err else firstError)"

fun killWorkers :: "Env \<Rightarrow> Ctx \<Rightarrow> string list \<Rightarrow> World \<Rightarrow> error option list \<times> World" where
  "killWorkers env ctx [] w = ([], w)"
| "killWorkers env ctx (nodeID # rest) w =
     (case killNode env ctx nodeID w of
        (err, w1) \<Rightarrow>
          (case killWorkers env ctx rest w1 of
             (signal, w2) \<Rightarrow> (err # signal, w2)))"

definition killCluster :: "Env \<Rightarrow> Ctx \<Rightarrow> string \<Rightarrow> nat list \<Rightarrow> World \<Rightarrow> error option \<times> World" where
  "killCluster env ctx clusterID picks w =
     (case getCluster env ctx clusterID w of
        (Inl err, w1) \<Rightarrow> (Some err, w1)
      | (Inr cluster, w1) \<Rightarrow>
          (if \<not> ContextIgnoreOwnership ctx \<and> Owner cluster \<noteq> ContextUser ctx
           then (Some NotOwner, w1)
           else (let nodesToKill = map ContainerID (Nodes cluster) in
                 case killWorkers env ctx (arrival picks nodesToKill) w1 of
                   (signal, w2) \<Rightarrow> (drain signal None, w2))))"

text \<open>\<open>fmt.Sprintf("%d", n)\<close> for a number that is not negative.\<close>

fun Itoa :: "nat \<Rightarrow> string" where
  "Itoa n =
     (if n < 10 then [char_of (48 + n)]
      else Itoa (n div 10) @ [char_of (48 + n mod 10)])"

declare Itoa.simps [simp del]

fun nameNodes :: "NodeOptions list \<Rightarrow> nat \<Rightarrow> NodeOptions list" where
  "nameNodes [] nodeIdx = []"
| "nameNodes (node # rest) nodeIdx =
     (if opt_Name node = [] then node\<lparr>opt_Name := ''node_'' @ Itoa (nodeIdx + 1)\<rparr> else node)
     # nameNodes rest (Suc nodeIdx)"

text \<open>
  The allocation workers. A panic in a goroutine ends the process: no further worker
  runs and nothing is received.
\<close>

fun allocWorkers ::
  "Env \<Rightarrow> Ctx \<Rightarrow> string \<Rightarrow> Time \<Rightarrow> NodeOptions list \<Rightarrow> World
     \<Rightarrow> (error + error option list) \<times> World" where
  "allocWorkers env ctx clusterID timeoutTime [] w = (Inr [], w)"
| "allocWorkers env ctx clusterID timeoutTime (node # rest) w =
     (case allocateNode env ctx clusterID timeoutTime node w of
        (r, w1) \<Rightarrow>
          (if r = Inl Panic then (Inl Panic, w1)
           else (case allocWorkers env ctx clusterID timeoutTime rest w1 of
                   (Inl e, w2) \<Rightarrow> (Inl e, w2)
                 | (Inr signal, w2) \<Rightarrow>
                     (Inr ((case r of Inl err \<Rightarrow> Some err | Inr _ \<Rightarrow> None) # signal), w2))))"

text \<open>
  \<open>allocateCluster\<close> returns a pair of the cluster identifier and the error, as the Go
  function does. The fresh identifier of \<open>newRandomClusterID\<close> and the reading of the
  clock are parameters, as are the orders in which the workers of the two fan-outs
  finish.
\<close>

definition allocateCluster ::
  "Env \<Rightarrow> Ctx \<Rightarrow> ClusterOptions \<Rightarrow> string \<Rightarrow> Time \<Rightarrow> nat list \<Rightarrow> nat list \<Rightarrow> World
     \<Rightarrow> (string \<times> error option) \<times> World" where
  "allocateCluster env ctx opts clusterID now picks killPicks w =
     (if opts_Timeout opts < 0 then (([], Some InvalidTimeout), w)
      else if opts_Timeout opts > 2 * 7 * 24 * Hour then (([], Some TimeoutTooLong), w)
      else if length (opts_Nodes opts) = 0 then (([], Some NoNodes), w)
      else if length (opts_Nodes opts) > 10 then (([], Some TooManyNodes), w)
      else
        (let timeoutTime = now + 1 * Hour;
             meta = \<lparr>meta_Owner = ContextUser ctx, meta_Timeout = timeoutTime\<rparr>
         in case metaStore_CreateClusterMeta env clusterID meta w of
              (Some err, w1) \<Rightarrow> (([], Some err), w1)
            | (None, w1) \<Rightarrow>
                (let nodesToAllocate = nameNodes (opts_Nodes opts) 0 in
                 case allocWorkers env ctx clusterID timeoutTime
                        (arrival picks nodesToAllocate) w1 of
                   (Inl e, w2) \<Rightarrow> (([], Some e), w2)
                 | (Inr signal, w2) \<Rightarrow>
                     (case drain signal None of
                        Some createError \<Rightarrow>
                          (case killCluster env ctx clusterID killPicks w2 of
                             (killError, w3) \<Rightarrow>
                               (if killError = Some Panic then (([], Some Panic), w3)
                                else (([], Some createError), w3)))
                      | None \<Rightarrow> ((clusterID, None), w2)))))"


section \<open>Notions used to state the properties\<close>

text \<open>The containers of a listing that carry a given cluster identifier in their label.\<close>

definition carriers :: "string \<Rightarrow> Container list \<Rightarrow> Container list" where
  "carriers clusterID cs =
     filter (\<lambda>c. label c ''com.couchbase.dyncluster.cluster_id'' = clusterID) cs"

text \<open>
  The creator derived for a group of containers: the first creator label that is not
  empty, \<open>unknown\<close> when there is none.
\<close>

definition derivedCreator :: "Container list \<Rightarrow> string" where
  "derivedCreator grp =
     (case filter (\<lambda>s. s \<noteq> []) (map (\<lambda>c. label c ''com.couchbase.dyncluster.creator'') grp) of
        [] \<Rightarrow> ''unknown''
      | s # _ \<Rightarrow> s)"

text \<open>The ownership filter of the listing, for a group of containers.\<close>

definition visibleTo :: "Ctx \<Rightarrow> Container list \<Rightarrow> bool" where
  "visibleTo ctx grp = (ContextIgnoreOwnership ctx \<or> derivedCreator grp = ContextUser ctx)"

text \<open>
  The reconciled view of one group: owner and timeout come from the metadata record,
  and are empty when there is none.
\<close>

definition reconciled :: "(string \<rightharpoonup> ClusterMeta) \<Rightarrow> string \<Rightarrow> Container list \<Rightarrow> Cluster" where
  "reconciled ms clusterID grp =
     \<lparr>ID = clusterID, Creator = derivedCreator grp,
      Owner = (case ms clusterID of None \<Rightarrow> [] | Some meta \<Rightarrow> meta_Owner meta),
      Timeout = (case ms clusterID of None \<Rightarrow> 0 | Some meta \<Rightarrow> meta_Timeout meta),
      Nodes = map toNode grp\<rparr>"

text \<open>Identifiers as the runtime hands them out have at least the 12 characters shown.\<close>

definition runtimeIDs :: "Container list \<Rightarrow> bool" where
  "runtimeIDs cs = list_all (\<lambda>c. 12 \<le> length (c_ID c)) cs"

text \<open>
  What the listing returns when the runtime answers and no identifier is too short,
  and the world it leaves: a listing call and one metadata read per group.
\<close>

definition visibleClusters :: "Ctx \<Rightarrow> World \<Rightarrow> Cluster list" where
  "visibleClusters ctx w =
     map (\<lambda>(k, g). reconciled (metas w) k g)
       (filter (\<lambda>(k, g). visibleTo ctx g) (groupByCluster (containers w)))"

definition listed :: "World \<Rightarrow> World" where
  "listed w = w\<lparr>calls := calls w @ CallContainerList #
                  map (\<lambda>(k, g). CallGetClusterMeta k) (groupByCluster (containers w))\<rparr>"

text \<open>The identifiers of the terminate calls (\<open>ContainerStop\<close>) issued so far.\<close>

fun terminateCalls :: "Call list \<Rightarrow> string list" where
  "terminateCalls [] = []"
| "terminateCalls (CallContainerStop cid # cs) = cid # terminateCalls cs"
| "terminateCalls (_ # cs) = terminateCalls cs"


text \<open>
  The two stages of \<open>allocateCluster\<close> after validation: the world once the metadata
  record has been written, and the fan-out of the allocation workers from there.
\<close>

definition afterCreate :: "Env \<Rightarrow> Ctx \<Rightarrow> string \<Rightarrow> Time \<Rightarrow> World \<Rightarrow> World" where
  "afterCreate env ctx clusterID now w =
     snd (metaStore_CreateClusterMeta env clusterID
            \<lparr>meta_Owner = ContextUser ctx, meta_Timeout = now + 1 * Hour\<rparr> w)"

definition fanOut ::
  "Env \<Rightarrow> Ctx \<Rightarrow> ClusterOptions \<Rightarrow> string \<Rightarrow> Time \<Rightarrow> nat list \<Rightarrow> World
     \<Rightarrow> (error + error option list) \<times> World" where
  "fanOut env ctx opts clusterID now picks w =
     allocWorkers env ctx clusterID (now + 1 * Hour)
       (arrival picks (nameNodes (opts_Nodes opts) 0)) (afterCreate env ctx clusterID now w)"


section \<open>A small world for the examples\<close>

definition example_env :: Env where
  "example_env =
     \<lparr>dockerRegistry = ''registry.local'', dnsSvcHost = [],
      listFault = None, createFault = (\<lambda>_. None),
      assignID = (\<lambda>name. rev name @ ''0123456789ab''),
      startFault = (\<lambda>_. None),
      attach = (\<lambda>_. [(''macvlan0'', \<lparr>IPAddress = ''10.0.0.2'', GlobalIPv6Address = []\<rparr>)]),
      inspectFault = (\<lambda>_. None), stopFault = (\<lambda>_. None),
      storeCreateFault = (\<lambda>_. None), storeUpdateFault = (\<lambda>_. None)\<rparr>"

definition example_alice :: Ctx where
  "example_alice = \<lparr>ContextUser = ''alice'', ContextIgnoreOwnership = False\<rparr>"

definition example_bob :: Ctx where
  "example_bob = \<lparr>ContextUser = ''bob'', ContextIgnoreOwnership = False\<rparr>"

definition example_container :: Container where
  "example_container =
     \<lparr>c_ID = ''0123456789abcdef'', c_State = ''running'',
      c_Labels = [(''com.couchbase.dyncluster.creator'', ''alice''),
                  (''com.couchbase.dyncluster.cluster_id'', ''c1''),
                  (''com.couchbase.dyncluster.node_name'', ''node_1''),
                  (''com.couchbase.dyncluster.initial_server_version'', ''6.5.1'')],
      c_Networks = [(''macvlan0'', \<lparr>IPAddress = ''10.0.0.1'', GlobalIPv6Address = []\<rparr>)]\<rparr>"

text \<open>One cluster \<open>c1\<close>, created and owned by alice; and the same without its record.\<close>

definition example_world :: World where
  "example_world =
     \<lparr>containers = [example_container],
      metas = [''c1'' \<mapsto> \<lparr>meta_Owner = ''alice'', meta_Timeout = 1000\<rparr>],
      calls = []\<rparr>"

definition example_unregistered :: World where
  "example_unregistered = \<lparr>containers = [example_container], metas = Map.empty, calls = []\<rparr>"

text \<open>The cluster \<open>c1\<close> after bob, with the ownership override, has refreshed it.\<close>

definition example_taken_over :: World where
  "example_taken_over =
     \<lparr>containers = [example_container],
      metas = [''c1'' \<mapsto> \<lparr>meta_Owner = ''bob'', meta_Timeout = 2000\<rparr>],
      calls = []\<rparr>"

definition example_node :: NodeOptions where
  "example_node =
     \<lparr>opt_Name = [], Platform = ''centos7'', ServerVersion = ''6.5.1'',
      VersionInfo = Some \<lparr>Version = ''6.5.1'', Flavor = ''mad-hatter'', Build = []\<rparr>\<rparr>"


definition example_request :: ClusterOptions where
  "example_request = \<lparr>opts_Timeout = 0, opts_Nodes = [example_node, example_node]\<rparr>"

section \<open>Properties of the version resolver\<close>

lemma Split_nonempty: "Split s sep \<noteq> []"
  by (induction s) (auto split: list.splits)

lemma Split_hd: "hd (Split s sep) = takeWhile (\<lambda>c. c \<noteq> sep) s"
  by (induction s) (auto split: list.splits simp: Split_nonempty)

lemma Split_tl:
  "tl (Split s sep) =
     (if sep \<in> set s then Split (tl (dropWhile (\<lambda>c. c \<noteq> sep) s)) sep else [])"
  by (induction s) (auto split: list.splits simp: Split_nonempty)

lemma Split_no_sep: "sep \<notin> set s \<Longrightarrow> Split s sep = [s]"
  by (induction s) (auto split: list.splits)

lemma Split_length_sep: "sep \<in> set s \<Longrightarrow> 2 \<le> length (Split s sep)"
proof -
  assume a: "sep \<in> set s"
  have "Split s sep = hd (Split s sep) # tl (Split s sep)"
    by (simp add: Split_nonempty)
  moreover have "tl (Split s sep) \<noteq> []"
    using a by (simp add: Split_tl Split_nonempty)
  ultimately obtain a b cs where "Split s sep = a # b # cs"
    by (cases "tl (Split s sep)") auto
  then show ?thesis by simp
qed

lemma index_0_Split: "index (Split s sep) 0 = Some (takeWhile (\<lambda>c. c \<noteq> sep) s)"
  using Split_nonempty[of s sep] Split_hd[of s sep]
  by (cases "Split s sep") (auto simp: index_def)

lemma lookupFlavor_table:
  "lookupFlavor major minor = Some f \<longleftrightarrow>
     (major, minor, f) \<in> {(4, 0, ''sherlock''), (4, 5, ''watson''), (5, 0, ''spock''),
        (5, 5, ''vulcan''), (6, 0, ''alice''), (6, 5, ''mad-hatter''), (7, 0, ''cheshire-cat'')}"
  by (auto simp: lookupFlavor_def versionToFlavor_def split: if_splits)

text \<open>
  Claim C6. For every version string whose base part (the piece before the first \<open>-\<close>)
  has a first and a second \<open>.\<close>-separated component that parse as integers \<open>major\<close>
  and \<open>minor\<close>: the minor is floored to 0 when it is below 5 and to 5 otherwise;
  \<open>flavorFromVersion\<close> and \<open>parseServerVersion\<close> return the flavor the table
  \<open>versionToFlavor\<close> holds at (major, floored minor) when the key is present, and fail
  with the unknown-flavor error for every pair outside the table.
\<close>

theorem resolve_flavor:
  assumes "index (Split version CHR ''-'') 0 = Some base"
    and "Split base CHR ''.'' = s0 # s1 # cs"
    and "Atoi s0 = Some major" and "Atoi s1 = Some minor"
  shows "flavorFromVersion base =
           (case lookupFlavor major (if minor < 5 then 0 else 5) of
              None \<Rightarrow> Inl (UnknownFlavor major (if minor < 5 then 0 else 5))
            | Some flavor \<Rightarrow> Inr flavor)
         \<and> (case lookupFlavor major (if minor < 5 then 0 else 5) of
              None \<Rightarrow> parseServerVersion version = Inl (UnknownFlavor major (if minor < 5 then 0 else 5))
                        \<and> isUnknownFlavor (UnknownFlavor major (if minor < 5 then 0 else 5))
            | Some flavor \<Rightarrow>
                (\<exists>nv. parseServerVersion version = Inr nv \<and> Version nv = base \<and> Flavor nv = flavor))"
  using assms
  by (auto simp: parseServerVersion_def flavorFromVersion_def index_def floorMinor_def
                 isUnknownFlavor_def Let_def
           split: option.splits)

theorem resolve_flavor_witness:
  "index (Split ''6.5.1-2134'' CHR ''-'') 0 = Some ''6.5.1''
   \<and> Split ''6.5.1'' CHR ''.'' = [''6'', ''5'', ''1'']
   \<and> Atoi ''6'' = Some 6 \<and> Atoi ''5'' = Some 5
   \<and> flavorFromVersion ''6.5.1'' = Inr ''mad-hatter''
   \<and> (\<exists>nv. parseServerVersion ''6.5.1-2134'' = Inr nv \<and> Version nv = ''6.5.1''
          \<and> Flavor nv = ''mad-hatter'')"
proof -
  have h1: "index (Split ''6.5.1-2134'' CHR ''-'') 0 = Some ''6.5.1''"
    by (simp add: index_def)
  have h2: "Split ''6.5.1'' CHR ''.'' = ''6'' # ''5'' # [''1'']"
    by simp
  have h3: "Atoi ''6'' = Some 6"
    by (simp add: Atoi_def isDigit_def digitsValue_def)
  have h4: "Atoi ''5'' = Some 5"
    by (simp add: Atoi_def isDigit_def digitsValue_def)
  have l: "lookupFlavor 6 5 = Some ''mad-hatter''"
    by (simp add: lookupFlavor_def versionToFlavor_def)
  show ?thesis
    using resolve_flavor [OF h1 h2 h3 h4] h1 h2 h3 h4 l by simp
qed

text \<open>
  Claim C7 says that the build identifier is the entire remainder after the first
  \<open>-\<close>. \<open>parseServerVersion\<close> splits at every \<open>-\<close> and keeps the second piece only:
  for \<open>6.5.1-2134-rc1\<close> the build is \<open>2134\<close>, not \<open>2134-rc1\<close>.
\<close>

theorem resolve_build_counterexample:
  "parseServerVersion ''6.5.1-2134-rc1''
     = Inr \<lparr>Version = ''6.5.1'', Flavor = ''mad-hatter'', Build = ''2134''\<rparr>
   \<and> ''2134'' \<noteq> ''2134-rc1''"
  by (simp add: parseServerVersion_def flavorFromVersion_def index_def Atoi_def isDigit_def
        digitsValue_def lookupFlavor_def versionToFlavor_def floorMinor_def)

lemma Split_second:
  "1 < length (Split s sep) \<Longrightarrow>
     Split s sep ! 1 = takeWhile (\<lambda>c. c \<noteq> sep) (tl (dropWhile (\<lambda>c. c \<noteq> sep) s))"
proof -
  assume a: "1 < length (Split s sep)"
  have ne: "Split s sep \<noteq> []" by (rule Split_nonempty)
  have in_s: "sep \<in> set s"
  proof (rule ccontr)
    assume "sep \<notin> set s"
    then have "Split s sep = [s]" by (rule Split_no_sep)
    with a show False by simp
  qed
  have "Split s sep ! 1 = hd (tl (Split s sep))"
    using a ne by (cases "Split s sep"; cases "tl (Split s sep)") auto
  also have "\<dots> = hd (Split (tl (dropWhile (\<lambda>c. c \<noteq> sep) s)) sep)"
    using in_s by (simp add: Split_tl)
  finally show ?thesis by (simp add: Split_hd)
qed

lemma Split_length_iff: "1 < length (Split s sep) \<longleftrightarrow> sep \<in> set s"
  using Split_length_sep[of sep s] Split_no_sep[of sep s] by fastforce

text \<open>
  Claim C7, amended. \<open>parseServerVersion\<close> splits its input at every \<open>-\<close>: the
  version is the prefix before the first \<open>-\<close>, and the build identifier is the piece
  between the first and the second \<open>-\<close> (the entire remainder when the remainder holds
  no further \<open>-\<close>, empty when the input has no \<open>-\<close>). \<open>6.5.1-2134\<close> resolves to
  version \<open>6.5.1\<close>, flavor \<open>mad-hatter\<close>, build \<open>2134\<close> with tag name
  \<open>6.5.1-2134.centos7\<close>, and for every input without \<open>-\<close> the tag name is the
  version followed by \<open>.centos7\<close>.
\<close>

theorem resolve_split:
  "(parseServerVersion version = Inr nv \<longrightarrow>
      Version nv = takeWhile (\<lambda>c. c \<noteq> CHR ''-'') version
      \<and> Build nv = (if CHR ''-'' \<in> set version
                     then takeWhile (\<lambda>c. c \<noteq> CHR ''-'')
                            (tl (dropWhile (\<lambda>c. c \<noteq> CHR ''-'') version))
                     else [])
      \<and> (CHR ''-'' \<notin> set (tl (dropWhile (\<lambda>c. c \<noteq> CHR ''-'') version)) \<longrightarrow>
            Build nv = tl (dropWhile (\<lambda>c. c \<noteq> CHR ''-'') version))
      \<and> (CHR ''-'' \<notin> set version \<longrightarrow> toTagName nv = Version nv @ ''.centos7''))
   \<and> parseServerVersion ''6.5.1-2134''
        = Inr \<lparr>Version = ''6.5.1'', Flavor = ''mad-hatter'', Build = ''2134''\<rparr>
   \<and> toTagName \<lparr>Version = ''6.5.1'', Flavor = ''mad-hatter'', Build = ''2134''\<rparr>
        = ''6.5.1-2134.centos7''"
proof -
  have ex: "parseServerVersion ''6.5.1-2134''
        = Inr \<lparr>Version = ''6.5.1'', Flavor = ''mad-hatter'', Build = ''2134''\<rparr>"
    by (simp add: parseServerVersion_def flavorFromVersion_def index_def Atoi_def isDigit_def
        digitsValue_def lookupFlavor_def versionToFlavor_def floorMinor_def)
  have tag: "toTagName \<lparr>Version = ''6.5.1'', Flavor = ''mad-hatter'', Build = ''2134''\<rparr>
        = ''6.5.1-2134.centos7''"
    by (simp add: toTagName_def)
  have gen: "Version nv = takeWhile (\<lambda>c. c \<noteq> CHR ''-'') version
      \<and> Build nv = (if CHR ''-'' \<in> set version
                     then takeWhile (\<lambda>c. c \<noteq> CHR ''-'')
                            (tl (dropWhile (\<lambda>c. c \<noteq> CHR ''-'') version))
                     else [])" if p: "parseServerVersion version = Inr nv"
    using p Split_second[of version "CHR ''-''"] Split_length_iff[of version "CHR ''-''"]
    by (auto simp: parseServerVersion_def index_0_Split Let_def split: sum.splits)
  have rest: "Build nv = tl (dropWhile (\<lambda>c. c \<noteq> CHR ''-'') version)"
    if p: "parseServerVersion version = Inr nv"
      and n: "CHR ''-'' \<notin> set (tl (dropWhile (\<lambda>c. c \<noteq> CHR ''-'') version))"
  proof (cases "CHR ''-'' \<in> set version")
    case True
    then show ?thesis using gen[OF p] n by (auto simp: takeWhile_eq_all_conv)
  next
    case False
    have d: "dropWhile (\<lambda>c. c \<noteq> CHR ''-'') version = []"
      using False by (auto simp: dropWhile_eq_Nil_conv)
    show ?thesis using gen[OF p] False by (simp add: d)
  qed
  have tagless: "toTagName nv = Version nv @ ''.centos7''"
    if p: "parseServerVersion version = Inr nv" and n: "CHR ''-'' \<notin> set version"
    using gen[OF p] n by (simp add: toTagName_def)
  show ?thesis using ex tag gen rest tagless by blast
qed

theorem resolve_split_witness:
  "parseServerVersion ''7.0.0'' = Inr \<lparr>Version = ''7.0.0'', Flavor = ''cheshire-cat'', Build = []\<rparr>
   \<and> toTagName \<lparr>Version = ''7.0.0'', Flavor = ''cheshire-cat'', Build = []\<rparr> = ''7.0.0.centos7''"
proof -
  have p: "parseServerVersion ''7.0.0''
             = Inr \<lparr>Version = ''7.0.0'', Flavor = ''cheshire-cat'', Build = []\<rparr>"
    by (simp add: parseServerVersion_def flavorFromVersion_def index_def Atoi_def isDigit_def
        digitsValue_def lookupFlavor_def versionToFlavor_def floorMinor_def)
  show ?thesis
    using resolve_split [of "''7.0.0''" "\<lparr>Version = ''7.0.0'', Flavor = ''cheshire-cat'', Build = []\<rparr>"] p
    by simp
qed

text \<open>
  Claim C9 says that every base version without a \<open>.\<close> runs into the out-of-bounds
  access and gets no invalid-version error. The first component is converted before
  the second one is read: \<open>abc\<close> holds no \<open>.\<close> and is answered with the
  major-conversion error, without any out-of-bounds access.
\<close>

theorem flavorFromVersion_bounds_counterexample:
  "CHR ''.'' \<notin> set ''abc'' \<and> flavorFromVersion ''abc'' = Inl MajorNotInt
   \<and> flavorFromVersion ''abc'' \<noteq> Inl Panic \<and> isInvalidVersion MajorNotInt"
  by (simp add: flavorFromVersion_def index_def Atoi_def isDigit_def isInvalidVersion_def)

text \<open>
  Claim C9, amended. \<open>flavorFromVersion\<close> reads the second \<open>.\<close>-separated component
  unguarded: for a base version without a \<open>.\<close> the read is out of bounds (a panic)
  when the whole base parses as an integer, and the major-conversion error is returned
  when it does not. For a base version that holds a \<open>.\<close> both component reads are in
  bounds, there is no panic, and an invalid-version error is returned only when one of
  the two components is not numeric.
\<close>

theorem flavorFromVersion_bounds:
  "(CHR ''.'' \<notin> set base \<longrightarrow>
      flavorFromVersion base = (if Atoi base = None then Inl MajorNotInt else Inl Panic))
   \<and> (CHR ''.'' \<in> set base \<longrightarrow>
        index (Split base CHR ''.'') 0 \<noteq> None \<and> index (Split base CHR ''.'') 1 \<noteq> None
        \<and> flavorFromVersion base \<noteq> Inl Panic
        \<and> (\<forall>e. flavorFromVersion base = Inl e \<and> isInvalidVersion e \<longrightarrow>
               Atoi (Split base CHR ''.'' ! 0) = None \<or> Atoi (Split base CHR ''.'' ! 1) = None))"
proof (intro conjI impI)
  assume n: "CHR ''.'' \<notin> set base"
  show "flavorFromVersion base = (if Atoi base = None then Inl MajorNotInt else Inl Panic)"
    using Split_no_sep[OF n]
    by (auto simp: flavorFromVersion_def index_def split: option.splits)
next
  assume y: "CHR ''.'' \<in> set base"
  from Split_length_sep[OF y] show "index (Split base CHR ''.'') 0 \<noteq> None"
    by (auto simp: index_def)
  from Split_length_sep[OF y] show i1: "index (Split base CHR ''.'') 1 \<noteq> None"
    by (simp add: index_def)
  from Split_length_sep[OF y] show "flavorFromVersion base \<noteq> Inl Panic"
    by (auto simp: flavorFromVersion_def index_def Let_def split: option.splits)
  from Split_length_sep[OF y]
  show "\<forall>e. flavorFromVersion base = Inl e \<and> isInvalidVersion e \<longrightarrow>
               Atoi (Split base CHR ''.'' ! 0) = None \<or> Atoi (Split base CHR ''.'' ! 1) = None"
    by (auto simp: flavorFromVersion_def index_def Let_def isInvalidVersion_def split: option.splits)
qed

theorem flavorFromVersion_bounds_witness:
  "CHR ''.'' \<notin> set ''6'' \<and> flavorFromVersion ''6'' = Inl Panic
   \<and> CHR ''.'' \<in> set ''6.x'' \<and> flavorFromVersion ''6.x'' = Inl MinorNotInt
   \<and> Atoi (Split ''6.x'' CHR ''.'' ! 1) = None"
proof -
  have a: "Atoi ''6'' = Some 6" by (simp add: Atoi_def isDigit_def digitsValue_def)
  have b: "flavorFromVersion ''6.x'' = Inl MinorNotInt"
    by (simp add: flavorFromVersion_def index_def Atoi_def isDigit_def digitsValue_def)
  have c: "isInvalidVersion MinorNotInt" by (simp add: isInvalidVersion_def)
  show ?thesis
    using flavorFromVersion_bounds [of "''6''"] flavorFromVersion_bounds [of "''6.x''"] a b c
    by (auto simp: Atoi_def isDigit_def)
qed

section \<open>Properties of the cluster reconciler\<close>

lemma appendToGroup_map_of:
  "map_of (appendToGroup k c m) k' =
     (if k' = k then Some ((case map_of m k of None \<Rightarrow> [] | Some g \<Rightarrow> g) @ [c]) else map_of m k')"
  by (induction k c m rule: appendToGroup.induct) auto

lemma appendToGroup_keys:
  "set (map fst (appendToGroup k c m)) = insert k (set (map fst m))"
  by (induction k c m rule: appendToGroup.induct) auto

lemma appendToGroup_distinct:
  "distinct (map fst m) \<Longrightarrow> distinct (map fst (appendToGroup k c m))"
proof (induction k c m rule: appendToGroup.induct)
  case (1 clusterID container)
  then show ?case by simp
next
  case (2 clusterID container k grp m)
  then show ?case
    using appendToGroup_keys[of clusterID container m] by auto
qed

lemma groupStep_map_of:
  "map_of (groupStep m c) k =
     (if k \<noteq> [] \<and> label c ''com.couchbase.dyncluster.cluster_id'' = k
      then Some ((case map_of m k of None \<Rightarrow> [] | Some g \<Rightarrow> g) @ [c]) else map_of m k)"
  by (auto simp: groupStep_def Let_def appendToGroup_map_of)

lemma groupStep_distinct: "distinct (map fst m) \<Longrightarrow> distinct (map fst (groupStep m c))"
  by (simp add: groupStep_def Let_def appendToGroup_distinct)

lemma foldl_groupStep_distinct:
  "distinct (map fst m) \<Longrightarrow> distinct (map fst (foldl groupStep m cs))"
  by (induction cs arbitrary: m) (auto simp: groupStep_distinct)

lemma foldl_groupStep_map_of:
  "map_of (foldl groupStep m cs) k =
     (case map_of m k of
        Some g \<Rightarrow> Some (g @ (if k \<noteq> [] then carriers k cs else []))
      | None \<Rightarrow> (if k \<noteq> [] \<and> carriers k cs \<noteq> [] then Some (carriers k cs) else None))"
proof (induction cs arbitrary: m)
  case Nil
  then show ?case by (simp add: carriers_def split: option.splits)
next
  case (Cons c cs)
  show ?case
    by (auto simp: Cons.IH groupStep_map_of carriers_def split: option.splits)
qed

lemma groupByCluster_distinct: "distinct (map fst (groupByCluster cs))"
  by (simp add: groupByCluster_def foldl_groupStep_distinct)

lemma groupByCluster_map_of:
  "map_of (groupByCluster cs) k =
     (if k \<noteq> [] \<and> carriers k cs \<noteq> [] then Some (carriers k cs) else None)"
  by (simp add: groupByCluster_def foldl_groupStep_map_of)

lemma groupByCluster_mem:
  "(k, g) \<in> set (groupByCluster cs) \<longleftrightarrow> k \<noteq> [] \<and> carriers k cs \<noteq> [] \<and> g = carriers k cs"
  using map_of_eq_Some_iff[OF groupByCluster_distinct, of cs k g]
  by (auto simp: groupByCluster_map_of split: if_splits)

lemma derivedCreator_Cons:
  "derivedCreator (c # cs) =
     (if label c ''com.couchbase.dyncluster.creator'' \<noteq> []
      then label c ''com.couchbase.dyncluster.creator'' else derivedCreator cs)"
  by (simp add: derivedCreator_def)

lemma derivedCreator_nonempty: "derivedCreator cs \<noteq> []"
  by (induction cs) (auto simp: derivedCreator_Cons, simp add: derivedCreator_def)

lemma buildNodes_ok:
  "runtimeIDs cs \<Longrightarrow>
     \<exists>cr'. buildNodes cs cr ns = Inr (cr', ns @ map toNode cs)
       \<and> (if cr' = [] then ''unknown'' else cr') = (if cr = [] then derivedCreator cs else cr)"
proof (induction cs arbitrary: cr ns)
  case Nil
  then show ?case by (simp add: derivedCreator_def)
next
  case (Cons c cs)
  from Cons.prems have len: "\<not> length (c_ID c) < 12" and rest: "runtimeIDs cs"
    by (auto simp: runtimeIDs_def)
  let ?cr1 = "if cr = [] then label c ''com.couchbase.dyncluster.creator'' else cr"
  from Cons.IH[OF rest, of ?cr1 "ns @ [toNode c]"]
  obtain cr' where b: "buildNodes cs ?cr1 (ns @ [toNode c]) = Inr (cr', (ns @ [toNode c]) @ map toNode cs)"
    and c: "(if cr' = [] then ''unknown'' else cr') = (if ?cr1 = [] then derivedCreator cs else ?cr1)"
    by blast
  have "buildNodes (c # cs) cr ns = Inr (cr', ns @ map toNode (c # cs))"
    using len b by (simp add: Let_def)
  moreover have "(if cr' = [] then ''unknown'' else cr') = (if cr = [] then derivedCreator (c # cs) else cr)"
    using c by (simp add: derivedCreator_Cons split: if_splits)
  ultimately show ?case by blast
qed

lemma buildNodes_panic:
  "\<not> runtimeIDs cs \<Longrightarrow> buildNodes cs cr ns = Inl Panic"
  by (induction cs arbitrary: cr ns) (auto simp: runtimeIDs_def Let_def)

lemma GetClusterMeta_fst:
  "fst (metaStore_GetClusterMeta k w) =
     (case metas w k of None \<Rightarrow> (\<lparr>meta_Owner = [], meta_Timeout = 0\<rparr>, Some (StoreFailure ''not found''))
      | Some meta \<Rightarrow> (meta, None))"
  by (simp add: metaStore_GetClusterMeta_def record_call_def Let_def split: option.splits)

lemma GetClusterMeta_snd:
  "snd (metaStore_GetClusterMeta k w) = record_call (CallGetClusterMeta k) w"
  by (simp add: metaStore_GetClusterMeta_def Let_def split: option.splits)

lemma record_call_fields [simp]:
  "containers (record_call c w) = containers w"
  "metas (record_call c w) = metas w"
  "calls (record_call c w) = calls w @ [c]"
  by (simp_all add: record_call_def)

lemma clusterLoop_ok:
  "\<forall>(k, g) \<in> set gs. runtimeIDs g \<Longrightarrow>
     clusterLoop ctx gs acc w =
       (Inr (acc @ map (\<lambda>(k, g). reconciled (metas w) k g) (filter (\<lambda>(k, g). visibleTo ctx g) gs)),
        w\<lparr>calls := calls w @ map (\<lambda>(k, g). CallGetClusterMeta k) gs\<rparr>)"
proof (induction gs arbitrary: acc w)
  case Nil
  then show ?case by simp
next
  case (Cons kg gs)
  obtain k g where kg: "kg = (k, g)" by (cases kg)
  from Cons.prems kg have ids: "runtimeIDs g" and rest: "\<forall>(k, g) \<in> set gs. runtimeIDs g"
    by auto
  obtain cr' where b: "buildNodes g [] [] = Inr (cr', map toNode g)"
    and c: "(if cr' = [] then ''unknown'' else cr') = derivedCreator g"
    using buildNodes_ok[OF ids, of "[]" "[]"] by auto
  obtain meta err where m: "fst (metaStore_GetClusterMeta k w) = (meta, err)"
    by (cases "fst (metaStore_GetClusterMeta k w)")
  have m': "metaStore_GetClusterMeta k w = ((meta, err), record_call (CallGetClusterMeta k) w)"
    using m GetClusterMeta_snd[of k w] by (cases "metaStore_GetClusterMeta k w") simp
  have rec: "\<lparr>ID = k, Creator = derivedCreator g, Owner = meta_Owner meta,
              Timeout = meta_Timeout meta, Nodes = map toNode g\<rparr> = reconciled (metas w) k g"
    using m by (auto simp: GetClusterMeta_fst reconciled_def split: option.splits)
  have w_eq: "(record_call (CallGetClusterMeta k) w)
                \<lparr>calls := calls (record_call (CallGetClusterMeta k) w) @ map (\<lambda>(k, g). CallGetClusterMeta k) gs\<rparr>
              = w\<lparr>calls := calls w @ map (\<lambda>(k, g). CallGetClusterMeta k) ((k, g) # gs)\<rparr>"
    by (simp add: record_call_def)
  show ?case
  proof (cases "visibleTo ctx g")
    case True
    then have "clusterLoop ctx (kg # gs) acc w =
        clusterLoop ctx gs (acc @ [reconciled (metas w) k g]) (record_call (CallGetClusterMeta k) w)"
      using b c rec by (auto simp: kg m' visibleTo_def)
    then show ?thesis
      using True Cons.IH[OF rest, of "acc @ [reconciled (metas w) k g]" "record_call (CallGetClusterMeta k) w"]
      by (simp add: kg w_eq)
  next
    case False
    then have "clusterLoop ctx (kg # gs) acc w =
        clusterLoop ctx gs acc (record_call (CallGetClusterMeta k) w)"
      using b c by (auto simp: kg m' visibleTo_def)
    then show ?thesis
      using False Cons.IH[OF rest, of acc "record_call (CallGetClusterMeta k) w"]
      by (simp add: kg w_eq)
  qed
qed

lemma carriers_runtimeIDs: "runtimeIDs cs \<Longrightarrow> runtimeIDs (carriers k cs)"
  by (auto simp: runtimeIDs_def carriers_def list_all_iff)

lemma groupByCluster_runtimeIDs:
  "runtimeIDs cs \<Longrightarrow> \<forall>(k, g) \<in> set (groupByCluster cs). runtimeIDs g"
  by (auto simp: groupByCluster_mem carriers_runtimeIDs)

lemma getAllClusters_ok:
  assumes "listFault env = None" and "runtimeIDs (containers w)"
  shows "getAllClusters env ctx w = (Inr (visibleClusters ctx w), listed w)"
  using assms clusterLoop_ok[OF groupByCluster_runtimeIDs[OF assms(2)], of ctx "[]" "record_call CallContainerList w"]
  by (simp add: getAllClusters_def docker_ContainerList_def Let_def visibleClusters_def listed_def
        record_call_def)

lemma find_visible:
  "distinct (map fst gs) \<Longrightarrow>
     find (\<lambda>cluster. ID cluster = cid)
       (map (\<lambda>(k, g). reconciled ms k g) (filter (\<lambda>(k, g). visibleTo ctx g) gs))
     = (case map_of gs cid of
          None \<Rightarrow> None
        | Some g \<Rightarrow> if visibleTo ctx g then Some (reconciled ms cid g) else None)"
proof (induction gs)
  case Nil
  then show ?case by simp
next
  case (Cons kg gs)
  obtain k g where kg: "kg = (k, g)" by (cases kg)
  from Cons.prems kg have nk: "k \<notin> fst ` set gs" and d: "distinct (map fst gs)" by auto
  have none: "map_of gs k = None" using nk by (simp add: map_of_eq_None_iff)
  show ?case
    using Cons.IH[OF d] none by (auto simp: kg reconciled_def split: option.splits)
qed

lemma getCluster_ok:
  assumes "listFault env = None" and "runtimeIDs (containers w)"
  shows "getCluster env ctx cid w =
     ((if cid \<noteq> [] \<and> carriers cid (containers w) \<noteq> [] \<and> visibleTo ctx (carriers cid (containers w))
       then Inr (reconciled (metas w) cid (carriers cid (containers w)))
       else Inl ClusterNotFound), listed w)"
  using find_visible[OF groupByCluster_distinct, of cid "metas w" ctx "containers w"]
  by (simp add: getCluster_def getAllClusters_ok[OF assms] visibleClusters_def groupByCluster_map_of)

section \<open>Frame properties of the operations\<close>

lemma terminateCalls_append:
  "terminateCalls (xs @ ys) = terminateCalls xs @ terminateCalls ys"
  by (induction xs rule: terminateCalls.induct) auto

lemma terminateCalls_gets: "terminateCalls (map (\<lambda>(k, g). CallGetClusterMeta k) gs) = []"
  by (induction gs) auto

lemma listed_fields:
  "containers (listed w) = containers w"
  "metas (listed w) = metas w"
  "terminateCalls (calls (listed w)) = terminateCalls (calls w)"
  by (simp_all add: listed_def terminateCalls_append terminateCalls_gets)

text \<open>Frame: the reconciler reads only.\<close>

lemma clusterLoop_frame:
  "clusterLoop ctx gs acc w = (r, w') \<Longrightarrow>
     containers w' = containers w \<and> metas w' = metas w
     \<and> (\<exists>e. calls w' = calls w @ e \<and> terminateCalls e = [])"
proof (induction gs arbitrary: acc w)
  case Nil
  then show ?case by auto
next
  case (Cons kg gs)
  obtain k g where kg: "kg = (k, g)" by (cases kg)
  let ?w1 = "record_call (CallGetClusterMeta k) w"
  obtain meta err where m: "metaStore_GetClusterMeta k w = ((meta, err), ?w1)"
    using GetClusterMeta_snd[of k w] by (cases "metaStore_GetClusterMeta k w") auto
  have step: "w' = ?w1 \<or> (\<exists>acc'. clusterLoop ctx gs acc' ?w1 = (r, w'))"
    using Cons.prems by (auto simp: kg m Let_def split: sum.splits prod.splits if_splits)
  then show ?case
  proof
    assume "w' = ?w1"
    then show ?thesis by simp
  next
    assume "\<exists>acc'. clusterLoop ctx gs acc' ?w1 = (r, w')"
    then obtain acc' where "clusterLoop ctx gs acc' ?w1 = (r, w')" ..
    from Cons.IH[OF this] show ?thesis
      by (auto simp: terminateCalls_append)
  qed
qed

lemma getAllClusters_frame:
  "getAllClusters env ctx w = (r, w') \<Longrightarrow>
     containers w' = containers w \<and> metas w' = metas w
     \<and> (\<exists>e. calls w' = calls w @ CallContainerList # e \<and> terminateCalls e = [])"
proof -
  assume a: "getAllClusters env ctx w = (r, w')"
  let ?w1 = "record_call CallContainerList w"
  have "w' = ?w1 \<or> (\<exists>gs. clusterLoop ctx gs [] ?w1 = (r, w'))"
    using a by (auto simp: getAllClusters_def docker_ContainerList_def Let_def split: option.splits)
  then show ?thesis
  proof
    assume "w' = ?w1" then show ?thesis by simp
  next
    assume "\<exists>gs. clusterLoop ctx gs [] ?w1 = (r, w')"
    then obtain gs where "clusterLoop ctx gs [] ?w1 = (r, w')" ..
    from clusterLoop_frame[OF this] show ?thesis by auto
  qed
qed

lemma getCluster_frame:
  "getCluster env ctx cid w = (r, w') \<Longrightarrow>
     containers w' = containers w \<and> metas w' = metas w
     \<and> (\<exists>e. calls w' = calls w @ CallContainerList # e \<and> terminateCalls e = [])"
proof -
  assume a: "getCluster env ctx cid w = (r, w')"
  obtain r0 where "getAllClusters env ctx w = (r0, w')"
    using a by (auto simp: getCluster_def split: prod.splits sum.splits option.splits)
  from getAllClusters_frame[OF this] show ?thesis .
qed

lemma killNode_frame:
  "killNode env ctx n w = (r, w') \<Longrightarrow> metas w' = metas w \<and> (\<exists>e. calls w' = calls w @ e)"
  by (auto simp: killNode_def docker_ContainerStop_def Let_def record_call_def
           split: option.splits if_splits)

lemma killWorkers_frame:
  "killWorkers env ctx ns w = (r, w') \<Longrightarrow> metas w' = metas w \<and> (\<exists>e. calls w' = calls w @ e)"
proof (induction ns arbitrary: w r)
  case Nil
  then show ?case by auto
next
  case (Cons n ns)
  obtain e1 w1 where k: "killNode env ctx n w = (e1, w1)" by (cases "killNode env ctx n w")
  obtain r2 where k2: "killWorkers env ctx ns w1 = (r2, w')"
    using Cons.prems k by (auto split: prod.splits)
  from killNode_frame[OF k] Cons.IH[OF k2] show ?case by auto
qed

lemma killWorkers_errors:
  "killWorkers env ctx ns w = (signal, w') \<Longrightarrow>
     \<forall>e. Some e \<in> set signal \<longrightarrow> (\<exists>msg. e = RuntimeFailure msg)"
proof (induction ns arbitrary: w signal)
  case Nil
  then show ?case by auto
next
  case (Cons n ns)
  obtain e1 w1 where k: "killNode env ctx n w = (e1, w1)" by (cases "killNode env ctx n w")
  obtain s2 where k2: "killWorkers env ctx ns w1 = (s2, w')" and s: "signal = e1 # s2"
    using Cons.prems k by (auto split: prod.splits)
  have "\<forall>e. e1 = Some e \<longrightarrow> (\<exists>msg. e = RuntimeFailure msg)"
    using k by (auto simp: killNode_def docker_ContainerStop_def Let_def
                  split: option.splits if_splits)
  with Cons.IH[OF k2] s show ?case by auto
qed

lemma killCluster_frame:
  "killCluster env ctx cid picks w = (r, w') \<Longrightarrow>
     metas w' = metas w \<and> (\<exists>e. calls w' = calls w @ CallContainerList # e)"
proof -
  assume a: "killCluster env ctx cid picks w = (r, w')"
  obtain r1 w1 where g: "getCluster env ctx cid w = (r1, w1)" by (cases "getCluster env ctx cid w")
  have "w' = w1 \<or> (\<exists>ns r2. killWorkers env ctx ns w1 = (r2, w'))"
    using a g by (auto simp: killCluster_def Let_def split: sum.splits if_splits prod.splits)
  then show ?thesis
  proof
    assume "w' = w1" with getCluster_frame[OF g] show ?thesis by auto
  next
    assume "\<exists>ns r2. killWorkers env ctx ns w1 = (r2, w')"
    then obtain ns r2 where "killWorkers env ctx ns w1 = (r2, w')" by blast
    from killWorkers_frame[OF this] getCluster_frame[OF g] show ?thesis by auto
  qed
qed

lemma allocateNode_frame:
  "allocateNode env ctx cid t n w = (r, w') \<Longrightarrow>
     metas w' = metas w \<and> (\<exists>e. calls w' = calls w @ e)"
  by (auto simp: allocateNode_def Let_def docker_ContainerCreate_def docker_ContainerStart_def
        docker_ContainerInspect_def registerDomainName_def record_call_def
      split: option.splits if_splits sum.splits prod.splits)

lemma allocateNode_errors:
  "allocateNode env ctx cid t n w = (Inl e, w') \<Longrightarrow> e = Panic \<or> (\<exists>msg. e = RuntimeFailure msg)"
  by (auto simp: allocateNode_def Let_def docker_ContainerCreate_def docker_ContainerStart_def
        docker_ContainerInspect_def registerDomainName_def record_call_def
      split: option.splits if_splits sum.splits prod.splits)

lemma allocWorkers_frame:
  "allocWorkers env ctx cid t ns w = (r, w') \<Longrightarrow>
     metas w' = metas w \<and> (\<exists>e. calls w' = calls w @ e)"
proof (induction ns arbitrary: w r)
  case Nil
  then show ?case by auto
next
  case (Cons n ns)
  obtain r1 w1 where a: "allocateNode env ctx cid t n w = (r1, w1)"
    by (cases "allocateNode env ctx cid t n w")
  have "w' = w1 \<or> (\<exists>r2. allocWorkers env ctx cid t ns w1 = (r2, w'))"
    using Cons.prems a by (auto split: if_splits prod.splits sum.splits)
  then show ?case
  proof
    assume "w' = w1" with allocateNode_frame[OF a] show ?thesis by auto
  next
    assume "\<exists>r2. allocWorkers env ctx cid t ns w1 = (r2, w')"
    then obtain r2 where "allocWorkers env ctx cid t ns w1 = (r2, w')" ..
    from Cons.IH[OF this] allocateNode_frame[OF a] show ?thesis by auto
  qed
qed

lemma allocWorkers_results:
  "allocWorkers env ctx cid t ns w = (r, w') \<Longrightarrow>
     (case r of
        Inl e \<Rightarrow> e = Panic
      | Inr signal \<Rightarrow> length signal = length ns
                      \<and> (\<forall>e. Some e \<in> set signal \<longrightarrow> (\<exists>msg. e = RuntimeFailure msg)))"
proof (induction ns arbitrary: w r w')
  case Nil
  then show ?case by auto
next
  case (Cons n ns)
  obtain r1 w1 where a: "allocateNode env ctx cid t n w = (r1, w1)"
    by (cases "allocateNode env ctx cid t n w")
  show ?case
  proof (cases "r1 = Inl Panic")
    case True
    then show ?thesis using Cons.prems a by auto
  next
    case False
    obtain r2 w2 where b: "allocWorkers env ctx cid t ns w1 = (r2, w2)"
      by (cases "allocWorkers env ctx cid t ns w1")
    from Cons.IH[OF b] have ih: "case r2 of Inl e \<Rightarrow> e = Panic
        | Inr signal \<Rightarrow> length signal = length ns
                      \<and> (\<forall>e. Some e \<in> set signal \<longrightarrow> (\<exists>msg. e = RuntimeFailure msg))" .
    have r1e: "\<And>e. r1 = Inl e \<Longrightarrow> \<exists>msg. e = RuntimeFailure msg"
      using allocateNode_errors[of env ctx cid t n w _ w1] a False by auto
    show ?thesis
      using Cons.prems a b False ih r1e by (auto split: sum.splits)
  qed
qed

lemma drain_first:
  "drain signal acc =
     (case acc of Some e \<Rightarrow> Some e
      | None \<Rightarrow> (case dropWhile (\<lambda>r. r = None) signal of [] \<Rightarrow> None | r # _ \<Rightarrow> r))"
  by (induction signal arbitrary: acc) (auto split: option.splits)

lemma drain_mem: "drain signal None = Some e \<Longrightarrow> Some e \<in> set signal"
proof -
  assume a: "drain signal None = Some e"
  then obtain rest where "dropWhile (\<lambda>r. r = None) signal = Some e # rest"
    by (auto simp: drain_first split: list.splits)
  then have "Some e \<in> set (dropWhile (\<lambda>r. r = None) signal)" by simp
  then show ?thesis by (rule set_dropWhileD)
qed




section \<open>Properties of listing, kill and refresh\<close>

lemma carriers_nonempty:
  "carriers cid cs \<noteq> [] \<longleftrightarrow>
     (\<exists>c \<in> set cs. label c ''com.couchbase.dyncluster.cluster_id'' = cid)"
  by (auto simp: carriers_def filter_empty_conv)


lemma visibleClusters_unregistered:
  "cluster \<in> set (visibleClusters ctx w) \<Longrightarrow> metas w (ID cluster) = None \<Longrightarrow>
     Owner cluster = [] \<and> Timeout cluster = 0"
  by (auto simp: visibleClusters_def reconciled_def)



lemma example_runtimeIDs:
  "runtimeIDs (containers example_world)" "runtimeIDs (containers example_unregistered)"
  by (simp_all add: runtimeIDs_def example_world_def example_unregistered_def example_container_def)

lemma example_carriers:
  "carriers ''c1'' (containers example_world) = [example_container]"
  "carriers ''c1'' (containers example_unregistered) = [example_container]"
  by (simp_all add: carriers_def example_world_def example_unregistered_def
        example_container_def label_def)

lemma example_creator: "derivedCreator [example_container] = ''alice''"
  by (simp add: derivedCreator_def example_container_def label_def)


lemma killCluster_not_found:
  assumes "listFault env = None" and "runtimeIDs (containers w)"
    and "\<not> (cid \<noteq> [] \<and> carriers cid (containers w) \<noteq> [] \<and> visibleTo ctx (carriers cid (containers w)))"
  shows "killCluster env ctx cid picks w = (Some ClusterNotFound, listed w)"
  using assms(3) by (auto simp: killCluster_def getCluster_ok[OF assms(1,2)])

lemma killCluster_not_owner:
  assumes "listFault env = None" and "runtimeIDs (containers w)"
    and "cid \<noteq> []" and "carriers cid (containers w) \<noteq> []"
    and "visibleTo ctx (carriers cid (containers w))"
    and "\<not> ContextIgnoreOwnership ctx"
    and "(case metas w cid of None \<Rightarrow> [] | Some meta \<Rightarrow> meta_Owner meta) \<noteq> ContextUser ctx"
  shows "killCluster env ctx cid picks w = (Some NotOwner, listed w)"
  using assms(3-7) by (simp add: killCluster_def getCluster_ok[OF assms(1,2)] reconciled_def)

text \<open>
  Claim C5 says that killing an existing cluster that the caller does not own fails
  with the ownership error. The cluster \<open>c1\<close> is carried by a container and owned by
  alice; bob, without override, gets "cluster not found": the listing has already
  dropped the cluster, since its creator is not bob.
\<close>

theorem killCluster_refusals_counterexample:
  "(\<exists>c \<in> set (containers example_world). label c ''com.couchbase.dyncluster.cluster_id'' = ''c1'')
   \<and> map_option meta_Owner (metas example_world ''c1'') = Some ''alice''
   \<and> ContextUser example_bob = ''bob'' \<and> \<not> ContextIgnoreOwnership example_bob
   \<and> fst (killCluster example_env example_bob ''c1'' [] example_world) = Some ClusterNotFound
   \<and> fst (killCluster example_env example_bob ''c1'' [] example_world) \<noteq> Some NotOwner"
proof -
  have f: "listFault example_env = None" by (simp add: example_env_def)
  have nv: "\<not> (''c1'' \<noteq> [] \<and> carriers ''c1'' (containers example_world) \<noteq> []
      \<and> visibleTo example_bob (carriers ''c1'' (containers example_world)))"
    by (simp add: example_carriers example_creator visibleTo_def example_bob_def)
  have "fst (killCluster example_env example_bob ''c1'' [] example_world) = Some ClusterNotFound"
    by (simp add: killCluster_not_found[OF f example_runtimeIDs(1) nv])
  then show ?thesis
    by (simp add: example_world_def example_container_def label_def example_bob_def)
qed

text \<open>
  Claim C5, amended. \<open>killCluster\<close> fails with "cluster not found" (NotFound) for a
  cluster identifier carried by no labelled container and, without the ownership
  override, for a cluster whose derived creator is not the caller. It fails with
  "cannot kill clusters you don't own" (Forbidden) for a cluster shown to the caller
  (derived creator equal to the caller) whose owner is not the caller, without the
  override. Neither failure issues a terminate call or changes the containers.
\<close>

theorem killCluster_refusals:
  assumes "listFault env = None" and "runtimeIDs (containers w)"
  shows "(cid = [] \<or> (\<forall>c \<in> set (containers w). label c ''com.couchbase.dyncluster.cluster_id'' \<noteq> cid)
           \<or> (\<not> ContextIgnoreOwnership ctx
               \<and> derivedCreator (carriers cid (containers w)) \<noteq> ContextUser ctx)
          \<longrightarrow> fst (killCluster env ctx cid picks w) = Some ClusterNotFound)
     \<and> (cid \<noteq> [] \<and> (\<exists>c \<in> set (containers w). label c ''com.couchbase.dyncluster.cluster_id'' = cid)
         \<and> \<not> ContextIgnoreOwnership ctx
         \<and> derivedCreator (carriers cid (containers w)) = ContextUser ctx
         \<and> (case metas w cid of None \<Rightarrow> [] | Some meta \<Rightarrow> meta_Owner meta) \<noteq> ContextUser ctx
          \<longrightarrow> fst (killCluster env ctx cid picks w) = Some NotOwner)
     \<and> (fst (killCluster env ctx cid picks w) = Some ClusterNotFound
          \<or> fst (killCluster env ctx cid picks w) = Some NotOwner
          \<longrightarrow> terminateCalls (calls (snd (killCluster env ctx cid picks w))) = terminateCalls (calls w)
              \<and> containers (snd (killCluster env ctx cid picks w)) = containers w)"
proof (intro conjI impI)
  assume a: "cid = [] \<or> (\<forall>c \<in> set (containers w). label c ''com.couchbase.dyncluster.cluster_id'' \<noteq> cid)
           \<or> (\<not> ContextIgnoreOwnership ctx
               \<and> derivedCreator (carriers cid (containers w)) \<noteq> ContextUser ctx)"
  then have "\<not> (cid \<noteq> [] \<and> carriers cid (containers w) \<noteq> [] \<and> visibleTo ctx (carriers cid (containers w)))"
    by (auto simp: carriers_nonempty visibleTo_def)
  from killCluster_not_found[OF assms this]
  show "fst (killCluster env ctx cid picks w) = Some ClusterNotFound" by simp
next
  assume a: "cid \<noteq> [] \<and> (\<exists>c \<in> set (containers w). label c ''com.couchbase.dyncluster.cluster_id'' = cid)
         \<and> \<not> ContextIgnoreOwnership ctx
         \<and> derivedCreator (carriers cid (containers w)) = ContextUser ctx
         \<and> (case metas w cid of None \<Rightarrow> [] | Some meta \<Rightarrow> meta_Owner meta) \<noteq> ContextUser ctx"
  then have c: "carriers cid (containers w) \<noteq> []" and v: "visibleTo ctx (carriers cid (containers w))"
    by (auto simp: carriers_nonempty visibleTo_def)
  from killCluster_not_owner[OF assms _ c v] a
  show "fst (killCluster env ctx cid picks w) = Some NotOwner" by simp
next
  assume r: "fst (killCluster env ctx cid picks w) = Some ClusterNotFound
          \<or> fst (killCluster env ctx cid picks w) = Some NotOwner"
  have "snd (killCluster env ctx cid picks w) = listed w"
  proof (cases "cid \<noteq> [] \<and> carriers cid (containers w) \<noteq> [] \<and> visibleTo ctx (carriers cid (containers w))")
    case False
    from killCluster_not_found[OF assms False] show ?thesis by simp
  next
    case True
    obtain signal w2 where kw: "killWorkers env ctx
        (arrival picks (map ContainerID (Nodes (reconciled (metas w) cid (carriers cid (containers w))))))
        (listed w) = (signal, w2)"
      by (cases "killWorkers env ctx
        (arrival picks (map ContainerID (Nodes (reconciled (metas w) cid (carriers cid (containers w))))))
        (listed w)")
    have sig: "\<forall>e. Some e \<in> set signal \<longrightarrow> (\<exists>msg. e = RuntimeFailure msg)"
      using kw by (rule killWorkers_errors)
    show ?thesis
    proof (cases "\<not> ContextIgnoreOwnership ctx \<and> Owner (reconciled (metas w) cid (carriers cid (containers w))) \<noteq> ContextUser ctx")
      case True
      with \<open>cid \<noteq> [] \<and> carriers cid (containers w) \<noteq> [] \<and> visibleTo ctx (carriers cid (containers w))\<close>
      show ?thesis by (simp add: killCluster_def getCluster_ok[OF assms])
    next
      case False
      with True have res: "fst (killCluster env ctx cid picks w) = drain signal None"
        using kw by (auto simp: killCluster_def getCluster_ok[OF assms] Let_def)
      from r res have "drain signal None = Some ClusterNotFound \<or> drain signal None = Some NotOwner"
        by simp
      then have "Some ClusterNotFound \<in> set signal \<or> Some NotOwner \<in> set signal"
        using drain_mem by blast
      with sig show ?thesis by auto
    qed
  qed
  then show "terminateCalls (calls (snd (killCluster env ctx cid picks w))) = terminateCalls (calls w)"
    and "containers (snd (killCluster env ctx cid picks w)) = containers w"
    by (simp_all add: listed_fields)
qed

lemma example_taken_over_facts:
  "runtimeIDs (containers example_taken_over)"
  "carriers ''c1'' (containers example_taken_over) = [example_container]"
  by (simp_all add: runtimeIDs_def carriers_def example_taken_over_def example_container_def label_def)

theorem killCluster_refusals_witness:
  "fst (killCluster example_env example_bob ''c1'' [] example_world) = Some ClusterNotFound
   \<and> fst (killCluster example_env example_alice ''c1'' [] example_taken_over) = Some NotOwner
   \<and> terminateCalls (calls (snd (killCluster example_env example_alice ''c1'' [] example_taken_over))) = []
   \<and> containers (snd (killCluster example_env example_alice ''c1'' [] example_taken_over))
       = [example_container]"
proof -
  have f: "listFault example_env = None" by (simp add: example_env_def)
  have l: "label example_container ''com.couchbase.dyncluster.cluster_id'' = ''c1''"
    by (simp add: example_container_def label_def)
  have w1: "containers example_world = [example_container]"
    by (simp add: example_world_def)
  have w2: "containers example_taken_over = [example_container]"
       "metas example_taken_over ''c1'' = Some \<lparr>meta_Owner = ''bob'', meta_Timeout = 2000\<rparr>"
       "calls example_taken_over = []"
    by (simp_all add: example_taken_over_def)
  have u: "ContextUser example_bob = ''bob''" "\<not> ContextIgnoreOwnership example_bob"
       "ContextUser example_alice = ''alice''" "\<not> ContextIgnoreOwnership example_alice"
    by (simp_all add: example_bob_def example_alice_def)
  from killCluster_refusals [OF f example_runtimeIDs(1), of "''c1''" example_bob "[]"]
       killCluster_refusals [OF f example_taken_over_facts(1), of "''c1''" example_alice "[]"]
  show ?thesis
    using l w1 w2 u example_carriers(1) example_taken_over_facts(2) example_creator
    by simp
qed

text \<open>
  Claim C10 says that, for a cluster without metadata record, \<open>killCluster\<close> by any
  caller without override fails with the ownership error. For a caller who is not the
  creator the listing drops the cluster first: bob gets "cluster not found".
\<close>

theorem unregistered_kill_counterexample:
  "metas example_unregistered ''c1'' = None
   \<and> \<not> ContextIgnoreOwnership example_bob
   \<and> fst (killCluster example_env example_bob ''c1'' [] example_unregistered) = Some ClusterNotFound
   \<and> fst (killCluster example_env example_bob ''c1'' [] example_unregistered) \<noteq> Some NotOwner"
proof -
  have f: "listFault example_env = None" by (simp add: example_env_def)
  have nv: "\<not> (''c1'' \<noteq> [] \<and> carriers ''c1'' (containers example_unregistered) \<noteq> []
      \<and> visibleTo example_bob (carriers ''c1'' (containers example_unregistered)))"
    by (simp add: example_carriers example_creator visibleTo_def example_bob_def)
  have "fst (killCluster example_env example_bob ''c1'' [] example_unregistered) = Some ClusterNotFound"
    by (simp add: killCluster_not_found[OF f example_runtimeIDs(2) nv])
  then show ?thesis
    by (simp add: example_unregistered_def example_bob_def)
qed

text \<open>
  Claim C10, amended. For every cluster whose metadata record is missing,
  \<open>getAllClusters\<close> surfaces it with an empty owner, and \<open>killCluster\<close> by any caller
  without the ownership override fails and terminates no node: with the ownership
  error when the caller is the derived creator of the cluster, with "cluster not
  found" for every other caller.
\<close>

theorem unregistered_kill:
  assumes "listFault env = None" and "runtimeIDs (containers w)"
    and "metas w cid = None" and "\<not> ContextIgnoreOwnership ctx"
  shows "(\<exists>clusters. fst (getAllClusters env ctx w) = Inr clusters
            \<and> (\<forall>cluster \<in> set clusters. ID cluster = cid \<longrightarrow> Owner cluster = []))
     \<and> fst (killCluster env ctx cid picks w)
         = (if cid \<noteq> []
               \<and> (\<exists>c \<in> set (containers w). label c ''com.couchbase.dyncluster.cluster_id'' = cid)
               \<and> derivedCreator (carriers cid (containers w)) = ContextUser ctx
            then Some NotOwner else Some ClusterNotFound)
     \<and> terminateCalls (calls (snd (killCluster env ctx cid picks w))) = terminateCalls (calls w)"
proof -
  have a: "\<exists>clusters. fst (getAllClusters env ctx w) = Inr clusters
            \<and> (\<forall>cluster \<in> set clusters. ID cluster = cid \<longrightarrow> Owner cluster = [])"
    using visibleClusters_unregistered[of _ ctx w] assms(3)
    by (auto simp: getAllClusters_ok[OF assms(1,2)])
  let ?vis = "cid \<noteq> [] \<and> carriers cid (containers w) \<noteq> [] \<and> visibleTo ctx (carriers cid (containers w))"
  have k: "killCluster env ctx cid picks w
             = ((if ?vis then Some NotOwner else Some ClusterNotFound), listed w)"
  proof (cases ?vis)
    case False
    with killCluster_not_found[OF assms(1,2) False] show ?thesis by simp
  next
    case True
    then have "derivedCreator (carriers cid (containers w)) = ContextUser ctx"
      using assms(4) by (simp add: visibleTo_def)
    then have "ContextUser ctx \<noteq> []" using derivedCreator_nonempty by metis
    then have "(case metas w cid of None \<Rightarrow> [] | Some meta \<Rightarrow> meta_Owner meta) \<noteq> ContextUser ctx"
      using assms(3) by simp
    with killCluster_not_owner[OF assms(1,2) _ _ _ assms(4)] True show ?thesis by simp
  qed
  have b: "fst (killCluster env ctx cid picks w)
         = (if cid \<noteq> []
               \<and> (\<exists>c \<in> set (containers w). label c ''com.couchbase.dyncluster.cluster_id'' = cid)
               \<and> derivedCreator (carriers cid (containers w)) = ContextUser ctx
            then Some NotOwner else Some ClusterNotFound)"
    using assms(4) by (simp add: k carriers_nonempty visibleTo_def)
  have c: "terminateCalls (calls (snd (killCluster env ctx cid picks w))) = terminateCalls (calls w)"
    by (simp add: k listed_fields)
  from a b c show ?thesis by blast
qed

theorem unregistered_kill_witness:
  "(\<exists>clusters. fst (getAllClusters example_env example_alice example_unregistered) = Inr clusters
            \<and> (\<forall>cluster \<in> set clusters. ID cluster = ''c1'' \<longrightarrow> Owner cluster = []))
   \<and> fst (killCluster example_env example_alice ''c1'' [] example_unregistered) = Some NotOwner
   \<and> terminateCalls (calls (snd (killCluster example_env example_alice ''c1'' [] example_unregistered))) = []"
proof -
  have f: "listFault example_env = None" by (simp add: example_env_def)
  have m: "metas example_unregistered ''c1'' = None" by (simp add: example_unregistered_def)
  have u: "\<not> ContextIgnoreOwnership example_alice" "ContextUser example_alice = ''alice''"
    by (simp_all add: example_alice_def)
  have l: "label example_container ''com.couchbase.dyncluster.cluster_id'' = ''c1''"
    by (simp add: example_container_def label_def)
  have w: "containers example_unregistered = [example_container]" "calls example_unregistered = []"
    by (simp_all add: example_unregistered_def)
  from unregistered_kill [OF f example_runtimeIDs(2) m u(1), of "[]"]
  show ?thesis
    using l w u(2) example_carriers(2) example_creator by simp
qed







section \<open>Properties of cluster allocation\<close>




lemma afterCreate_eq:
  "metaStore_CreateClusterMeta env cid \<lparr>meta_Owner = ContextUser ctx, meta_Timeout = now + 1 * Hour\<rparr> w
     = ((case storeCreateFault env cid of None \<Rightarrow> None | Some msg \<Rightarrow> Some (StoreFailure msg)),
        afterCreate env ctx cid now w)"
  by (simp add: afterCreate_def metaStore_CreateClusterMeta_def Let_def split: option.splits)

lemma afterCreate_calls:
  "calls (afterCreate env ctx cid now w) =
     calls w @ [CallCreateClusterMeta cid \<lparr>meta_Owner = ContextUser ctx, meta_Timeout = now + Hour\<rparr>]"
  by (simp add: afterCreate_def metaStore_CreateClusterMeta_def Let_def record_call_def
           split: option.splits)

lemma afterCreate_metas:
  "storeCreateFault env cid = None \<Longrightarrow>
     metas (afterCreate env ctx cid now w) =
       (metas w)(cid \<mapsto> \<lparr>meta_Owner = ContextUser ctx, meta_Timeout = now + Hour\<rparr>)"
  by (simp add: afterCreate_def metaStore_CreateClusterMeta_def Let_def record_call_def)

text \<open>The four outcomes of a request that passes validation.\<close>

lemma allocateCluster_valid:
  assumes "0 \<le> opts_Timeout opts" and "opts_Timeout opts \<le> 14 * 24 * Hour"
    and "1 \<le> length (opts_Nodes opts)" and "length (opts_Nodes opts) \<le> 10"
  shows "allocateCluster env ctx opts cid now picks killPicks w =
     (case storeCreateFault env cid of
        Some msg \<Rightarrow> (([], Some (StoreFailure msg)), afterCreate env ctx cid now w)
      | None \<Rightarrow>
          (case fanOut env ctx opts cid now picks w of
             (Inl e, w2) \<Rightarrow> (([], Some e), w2)
           | (Inr signal, w2) \<Rightarrow>
               (case drain signal None of
                  None \<Rightarrow> ((cid, None), w2)
                | Some createError \<Rightarrow>
                    (if fst (killCluster env ctx cid killPicks w2) = Some Panic
                     then (([], Some Panic), snd (killCluster env ctx cid killPicks w2))
                     else (([], Some createError), snd (killCluster env ctx cid killPicks w2))))))"
proof -
  have v: "\<not> opts_Timeout opts < 0" "\<not> opts_Timeout opts > 2 * 7 * 24 * Hour"
    "length (opts_Nodes opts) \<noteq> 0" "\<not> length (opts_Nodes opts) > 10"
    using assms by auto
  show ?thesis
    unfolding allocateCluster_def
    by (simp only: v if_False Let_def afterCreate_eq fanOut_def)
       (auto split: option.splits prod.splits sum.splits)
qed

lemma fanOut_frame:
  "fanOut env ctx opts cid now picks w = (r, w2) \<Longrightarrow>
     metas w2 = metas (afterCreate env ctx cid now w)
     \<and> (\<exists>e. calls w2 = calls (afterCreate env ctx cid now w) @ e)"
  unfolding fanOut_def by (rule allocWorkers_frame)

lemma killCluster_frame':
  "metas (snd (killCluster env ctx cid picks w)) = metas w
   \<and> (\<exists>e. calls (snd (killCluster env ctx cid picks w)) = calls w @ CallContainerList # e)"
  using killCluster_frame[of env ctx cid picks w] by (cases "killCluster env ctx cid picks w") auto

lemma allocateCluster_valid_frame:
  assumes "0 \<le> opts_Timeout opts" and "opts_Timeout opts \<le> 14 * 24 * Hour"
    and "1 \<le> length (opts_Nodes opts)" and "length (opts_Nodes opts) \<le> 10"
  shows "metas (snd (allocateCluster env ctx opts cid now picks killPicks w))
           = metas (afterCreate env ctx cid now w)
     \<and> (\<exists>e. calls (snd (allocateCluster env ctx opts cid now picks killPicks w))
              = calls (afterCreate env ctx cid now w) @ e)"
proof (cases "storeCreateFault env cid")
  case (Some msg)
  then show ?thesis by (simp add: allocateCluster_valid[OF assms])
next
  case None
  obtain r w2 where f: "fanOut env ctx opts cid now picks w = (r, w2)"
    by (cases "fanOut env ctx opts cid now picks w")
  note fr = fanOut_frame[OF f]
  note kf = killCluster_frame'[of env ctx cid killPicks w2]
  show ?thesis
  proof (cases r)
    case (Inl e)
    then show ?thesis using None f fr by (simp add: allocateCluster_valid[OF assms])
  next
    case (Inr signal)
    show ?thesis
    proof (cases "drain signal None")
      case None': None
      then show ?thesis using None f fr Inr by (simp add: allocateCluster_valid[OF assms])
    next
      case (Some createError)
      have "snd (allocateCluster env ctx opts cid now picks killPicks w)
              = snd (killCluster env ctx cid killPicks w2)"
        using None f Inr Some by (simp add: allocateCluster_valid[OF assms])
      then show ?thesis using fr kf by auto
    qed
  qed
qed

lemma allocateCluster_valid_errors:
  assumes "0 \<le> opts_Timeout opts" and "opts_Timeout opts \<le> 14 * 24 * Hour"
    and "1 \<le> length (opts_Nodes opts)" and "length (opts_Nodes opts) \<le> 10"
    and "snd (fst (allocateCluster env ctx opts cid now picks killPicks w)) = Some e"
  shows "e = Panic \<or> (\<exists>msg. e = RuntimeFailure msg) \<or> (\<exists>msg. e = StoreFailure msg)"
proof (cases "storeCreateFault env cid")
  case (Some msg)
  then show ?thesis using assms(5) by (auto simp: allocateCluster_valid[OF assms(1-4)])
next
  case None
  obtain r w2 where f: "fanOut env ctx opts cid now picks w = (r, w2)"
    by (cases "fanOut env ctx opts cid now picks w")
  from allocWorkers_results[OF f[unfolded fanOut_def]]
  have res: "case r of Inl e \<Rightarrow> e = Panic
      | Inr signal \<Rightarrow> length signal = length (arrival picks (nameNodes (opts_Nodes opts) 0))
          \<and> (\<forall>e. Some e \<in> set signal \<longrightarrow> (\<exists>msg. e = RuntimeFailure msg))" .
  show ?thesis
  proof (cases r)
    case (Inl e')
    then show ?thesis using None f res assms(5) by (auto simp: allocateCluster_valid[OF assms(1-4)])
  next
    case (Inr signal)
    show ?thesis
    proof (cases "drain signal None")
      case None': None
      then show ?thesis using None f Inr assms(5) by (auto simp: allocateCluster_valid[OF assms(1-4)])
    next
      case (Some createError)
      from drain_mem[OF Some] res Inr have "\<exists>msg. createError = RuntimeFailure msg" by simp
      then show ?thesis
        using None f Inr Some assms(5)
        by (auto simp: allocateCluster_valid[OF assms(1-4)] split: if_splits)
    qed
  qed
qed


lemma isInvalidRequest_collaborator:
  "e = Panic \<or> (\<exists>msg. e = RuntimeFailure msg) \<or> (\<exists>msg. e = StoreFailure msg) \<Longrightarrow>
     \<not> isInvalidRequest e"
  by (auto simp: isInvalidRequest_def)

text \<open>
  Claim C2 puts the lower bound of the timeout at \<open>0 < timeout\<close>. The check of
  \<open>allocateCluster\<close> is \<open>opts.Timeout < 0\<close>: a request with timeout 0 and one node
  violates the claimed bound, yet it passes validation, writes the metadata record and
  returns the cluster identifier.
\<close>

theorem allocateCluster_validation_counterexample:
  "\<not> (0 < opts_Timeout \<lparr>opts_Timeout = 0, opts_Nodes = [example_node]\<rparr>)
   \<and> fst (allocateCluster example_env example_alice
           \<lparr>opts_Timeout = 0, opts_Nodes = [example_node]\<rparr> ''c2'' 5000 [] [] example_world)
       = (''c2'', None)
   \<and> hd (calls (snd (allocateCluster example_env example_alice
           \<lparr>opts_Timeout = 0, opts_Nodes = [example_node]\<rparr> ''c2'' 5000 [] [] example_world)))
       = CallCreateClusterMeta ''c2'' \<lparr>meta_Owner = ''alice'', meta_Timeout = 3600000005000\<rparr>"
  by code_simp

text \<open>
  Claim C2, amended. \<open>allocateCluster\<close> fails with an invalid-request error, leaving
  the world as it is (no call to the runtime, no call to the metadata store), exactly
  when the request violates \<open>0 \<le> timeout \<le> 14 days\<close> or \<open>1 \<le> nodeCount \<le> 10\<close>.
  Every request within those bounds passes validation and proceeds to create the
  metadata record: the first call it issues is that creation, and whatever error it
  returns later is not an invalid-request error.
\<close>

theorem allocateCluster_validation:
  "(opts_Timeout opts < 0 \<or> 14 * 24 * Hour < opts_Timeout opts
      \<or> length (opts_Nodes opts) = 0 \<or> 10 < length (opts_Nodes opts) \<longrightarrow>
        (\<exists>e. allocateCluster env ctx opts cid now picks killPicks w = (([], Some e), w)
              \<and> isInvalidRequest e))
   \<and> (0 \<le> opts_Timeout opts \<and> opts_Timeout opts \<le> 14 * 24 * Hour
      \<and> 1 \<le> length (opts_Nodes opts) \<and> length (opts_Nodes opts) \<le> 10 \<longrightarrow>
        (\<forall>e. snd (fst (allocateCluster env ctx opts cid now picks killPicks w)) = Some e
              \<longrightarrow> \<not> isInvalidRequest e)
        \<and> (\<exists>ext. calls (snd (allocateCluster env ctx opts cid now picks killPicks w))
               = calls w @ CallCreateClusterMeta cid
                             \<lparr>meta_Owner = ContextUser ctx, meta_Timeout = now + Hour\<rparr> # ext))"
proof (intro conjI impI)
  assume "opts_Timeout opts < 0 \<or> 14 * 24 * Hour < opts_Timeout opts
      \<or> length (opts_Nodes opts) = 0 \<or> 10 < length (opts_Nodes opts)"
  then show "\<exists>e. allocateCluster env ctx opts cid now picks killPicks w = (([], Some e), w)
              \<and> isInvalidRequest e"
    by (auto simp: allocateCluster_def isInvalidRequest_def)
next
  assume v: "0 \<le> opts_Timeout opts \<and> opts_Timeout opts \<le> 14 * 24 * Hour
      \<and> 1 \<le> length (opts_Nodes opts) \<and> length (opts_Nodes opts) \<le> 10"
  then have v1: "0 \<le> opts_Timeout opts" and v2: "opts_Timeout opts \<le> 14 * 24 * Hour"
    and v3: "1 \<le> length (opts_Nodes opts)" and v4: "length (opts_Nodes opts) \<le> 10"
    by auto
  show "\<forall>e. snd (fst (allocateCluster env ctx opts cid now picks killPicks w)) = Some e
              \<longrightarrow> \<not> isInvalidRequest e"
    using allocateCluster_valid_errors[OF v1 v2 v3 v4] isInvalidRequest_collaborator by blast
  show "\<exists>ext. calls (snd (allocateCluster env ctx opts cid now picks killPicks w))
               = calls w @ CallCreateClusterMeta cid
                             \<lparr>meta_Owner = ContextUser ctx, meta_Timeout = now + Hour\<rparr> # ext"
    using allocateCluster_valid_frame[OF v1 v2 v3 v4, of env ctx cid now picks killPicks w]
    by (auto simp: afterCreate_calls)
qed

theorem allocateCluster_validation_witness:
  "(\<exists>e. allocateCluster example_env example_alice \<lparr>opts_Timeout = 5, opts_Nodes = []\<rparr>
            ''c2'' 5000 [] [] example_world = (([], Some e), example_world)
         \<and> isInvalidRequest e)
   \<and> (\<exists>ext. calls (snd (allocateCluster example_env example_alice
                            \<lparr>opts_Timeout = 5, opts_Nodes = [example_node]\<rparr>
                            ''c2'' 5000 [] [] example_world))
          = CallCreateClusterMeta ''c2'' \<lparr>meta_Owner = ''alice'', meta_Timeout = 5000 + Hour\<rparr> # ext)"
proof -
  have h: "(5::int) \<le> 14 * 24 * Hour" by (simp add: Hour_def)
  have c: "calls example_world = []" by (simp add: example_world_def)
  have u: "ContextUser example_alice = ''alice''" by (simp add: example_alice_def)
  from allocateCluster_validation [of "\<lparr>opts_Timeout = 5, opts_Nodes = []\<rparr>" example_env example_alice
          "''c2''" 5000 "[]" "[]" example_world]
       allocateCluster_validation [of "\<lparr>opts_Timeout = 5, opts_Nodes = [example_node]\<rparr>" example_env
          example_alice "''c2''" 5000 "[]" "[]" example_world]
  show ?thesis using h c u by simp
qed

text \<open>
  Claim C8. For a request that passes validation, the metadata record that
  \<open>allocateCluster\<close> creates has the caller as owner and the current time plus one
  hour as timeout; when the store accepts it, it is the only change to the store. The
  requested timeout plays no part: two valid requests that differ only in their
  timeout, issued in the same circumstances, have the same outcome altogether.
\<close>

theorem allocateCluster_meta_window:
  assumes "0 \<le> opts_Timeout opts" and "opts_Timeout opts \<le> 14 * 24 * Hour"
    and "1 \<le> length (opts_Nodes opts)" and "length (opts_Nodes opts) \<le> 10"
  shows "(\<exists>ext. calls (snd (allocateCluster env ctx opts cid now picks killPicks w))
            = calls w @ CallCreateClusterMeta cid
                          \<lparr>meta_Owner = ContextUser ctx, meta_Timeout = now + 3600 * 1000000000\<rparr> # ext)
     \<and> (storeCreateFault env cid = None \<longrightarrow>
           metas (snd (allocateCluster env ctx opts cid now picks killPicks w))
             = (metas w)(cid \<mapsto> \<lparr>meta_Owner = ContextUser ctx,
                                meta_Timeout = now + 3600 * 1000000000\<rparr>))
     \<and> (0 \<le> t' \<and> t' \<le> 14 * 24 * Hour \<longrightarrow>
           allocateCluster env ctx (opts\<lparr>opts_Timeout := t'\<rparr>) cid now picks killPicks w
             = allocateCluster env ctx opts cid now picks killPicks w)"
proof (intro conjI impI)
  show "\<exists>ext. calls (snd (allocateCluster env ctx opts cid now picks killPicks w))
            = calls w @ CallCreateClusterMeta cid
                          \<lparr>meta_Owner = ContextUser ctx, meta_Timeout = now + 3600 * 1000000000\<rparr> # ext"
    using allocateCluster_valid_frame[OF assms, of env ctx cid now picks killPicks w]
    by (auto simp: afterCreate_calls Hour_def)
next
  assume "storeCreateFault env cid = None"
  then show "metas (snd (allocateCluster env ctx opts cid now picks killPicks w))
             = (metas w)(cid \<mapsto> \<lparr>meta_Owner = ContextUser ctx,
                                meta_Timeout = now + 3600 * 1000000000\<rparr>)"
    using allocateCluster_valid_frame[OF assms, of env ctx cid now picks killPicks w]
    by (simp add: afterCreate_metas Hour_def)
next
  assume t: "0 \<le> t' \<and> t' \<le> 14 * 24 * Hour"
  then have t1: "0 \<le> opts_Timeout (opts\<lparr>opts_Timeout := t'\<rparr>)"
    and t2: "opts_Timeout (opts\<lparr>opts_Timeout := t'\<rparr>) \<le> 14 * 24 * Hour"
    and t3: "1 \<le> length (opts_Nodes (opts\<lparr>opts_Timeout := t'\<rparr>))"
    and t4: "length (opts_Nodes (opts\<lparr>opts_Timeout := t'\<rparr>)) \<le> 10"
    using assms by auto
  have f: "fanOut env ctx (opts\<lparr>opts_Timeout := t'\<rparr>) cid now picks w = fanOut env ctx opts cid now picks w"
    by (simp add: fanOut_def)
  show "allocateCluster env ctx (opts\<lparr>opts_Timeout := t'\<rparr>) cid now picks killPicks w
             = allocateCluster env ctx opts cid now picks killPicks w"
    by (simp only: allocateCluster_valid[OF t1 t2 t3 t4] allocateCluster_valid[OF assms] f)
qed

theorem allocateCluster_meta_window_witness:
  "metas (snd (allocateCluster example_env example_alice example_request ''c2'' 5000 [] [] example_world)) ''c2''
     = Some \<lparr>meta_Owner = ''alice'', meta_Timeout = 3600000005000\<rparr>
   \<and> allocateCluster example_env example_alice (example_request\<lparr>opts_Timeout := 7200000000000\<rparr>)
        ''c2'' 5000 [] [] example_world
      = allocateCluster example_env example_alice example_request ''c2'' 5000 [] [] example_world"
proof -
  have v: "0 \<le> opts_Timeout example_request" "opts_Timeout example_request \<le> 14 * 24 * Hour"
     "1 \<le> length (opts_Nodes example_request)" "length (opts_Nodes example_request) \<le> 10"
    by (simp_all add: example_request_def Hour_def)
  have h: "(7200000000000::int) \<le> 14 * 24 * Hour" by (simp add: Hour_def)
  have s: "storeCreateFault example_env ''c2'' = None" by (simp add: example_env_def)
  have u: "ContextUser example_alice = ''alice''" by (simp add: example_alice_def)
  from allocateCluster_meta_window [OF v, of example_env example_alice "''c2''" 5000 "[]" "[]"
         example_world 7200000000000]
  show ?thesis using h s u by simp
qed



section \<open>The orders of arrival are the permutations of the workers\<close>

lemma mset_remove_nth:
  "i < length xs \<Longrightarrow> mset (take i xs @ drop (Suc i) xs) + {#xs ! i#} = mset xs"
proof -
  assume a: "i < length xs"
  have "xs = take i xs @ xs ! i # drop (Suc i) xs"
    using a by (simp add: id_take_nth_drop)
  then have "mset xs = mset (take i xs @ xs ! i # drop (Suc i) xs)" by simp
  then show ?thesis by simp
qed

lemma arrival_mset: "mset (arrival ps xs) = mset xs"
proof (induction ps xs rule: arrival.induct)
  case (1 xs)
  then show ?case by simp
next
  case (2 p ps xs)
  show ?case
  proof (cases "xs = []")
    case True
    then show ?thesis by simp
  next
    case False
    then have lt: "p mod length xs < length xs" by simp
    from 2[OF False refl] mset_remove_nth[OF lt] False show ?thesis
      by (simp add: Let_def)
  qed
qed

lemma arrival_any_order: "mset ys = mset xs \<Longrightarrow> \<exists>ps. arrival ps xs = ys"
proof (induction ys arbitrary: xs)
  case Nil
  then have "xs = []" by simp
  then have "arrival [] xs = []" by simp
  then show ?case by blast
next
  case (Cons y ys)
  from Cons.prems have "y \<in> set xs" by (metis list.set_intros(1) set_mset_mset)
  then obtain i where i: "i < length xs" and y: "xs ! i = y" by (auto simp: in_set_conv_nth)
  have ne: "xs \<noteq> []" using i by auto
  have e1: "mset (take i xs @ drop (Suc i) xs) + {#y#} = mset xs"
    using mset_remove_nth[OF i] y by simp
  have "mset (y # ys) = mset (take i xs @ drop (Suc i) xs) + {#y#}"
    by (simp only: e1 Cons.prems)
  then have "mset ys = mset (take i xs @ drop (Suc i) xs)" by simp
  from Cons.IH[OF this] obtain ps where ps: "arrival ps (take i xs @ drop (Suc i) xs) = ys" ..
  have "arrival (i # ps) xs = y # ys"
    using ne i y ps by (simp add: Let_def)
  then show ?case by blast
qed

end
